theory Spec2Isabelle
  imports Complex_Main "HOL-Library.Multiset"
begin

section \<open>The training driver of resnet-posture (train.py)\<close>

text \<open>
  The driver is one Python module working on a global namespace \<open>args\<close>: the parsed
  options, to which the functions attach further attributes while they run. The model
  passes that namespace as a record through every function and returns it updated,
  together with the value returned or the exception raised. An exception leaves the
  attributes assigned before it in place, so the state is returned in both cases.

  Floating-point values are modelled as real numbers: rounding and nan are not part of
  the model. \<open>float('inf')\<close> is a value of its own.
\<close>

subsection \<open>Values\<close>

datatype error =
    AttributeError string
  | ZeroDivisionError
  | StopIteration
  | ValueError string
  | EOFError
  | CheckpointError
  | NameError string

text \<open>A Python float, as far as \<open>args.best\<close> needs it.\<close>

datatype pyfloat = Fin real | PInf

fun float_lt :: "real \<Rightarrow> pyfloat \<Rightarrow> bool" where
  "float_lt x (Fin b) = (x < b)"
| "float_lt x PInf = True"

text \<open>The value argparse stores for an option: \<open>None\<close> or a boolean.\<close>

datatype pyval = PyNone | PyBool bool

text \<open>\<open>args.device\<close>: the option string, or the \<open>torch.device\<close> object of main.\<close>

datatype device = DevName string | TorchDevice string

text \<open>
  \<open>args.optimizer\<close>: the option string, or the optimizer object train replaces it with
  (its learning rate and its running statistics, of an opaque type).
\<close>

datatype 'o optimizer = OptName string | Adam real 'o | SGD real 'o

datatype criterion = NoCriterion | MSELoss

text \<open>A tensor of shape (N, C, H, W): images, each a list of channels of rows.\<close>

type_synonym image = "real list list list"
type_synonym tensor = "image list"
type_synonym sample = "image \<times> image"

definition flat :: "tensor \<Rightarrow> real list" where
  "flat t = concat (concat (concat t))"

text \<open>
  \<open>torch.nn.MSELoss()\<close> followed by \<open>.item()\<close>: the mean over all elements of the
  squared difference.
\<close>

definition mse_loss :: "tensor \<Rightarrow> tensor \<Rightarrow> real" where
  "mse_loss outputs targets =
     sum_list (map (\<lambda>(x, y). (x - y)\<^sup>2) (zip (flat outputs) (flat targets)))
       / real (length (flat outputs))"

text \<open>Calls received by the tensorboard \<open>SummaryWriter\<close>, in order.\<close>

datatype wcall =
    AddScalar string real int
  | AddImage string "int option"
  | Flush
  | Close

text \<open>Lines printed on standard output.\<close>

datatype line =
    StartedTraining
  | FinishedTraining
  | StartedValidation
  | Status int int int int real real real
  | EpochAverage nat real
  | Shape "nat list"
  | Indices "(nat \<times> nat) list list"
  | DeviceLine device
  | RunLine string
  | Parameters
  | TrainableParameters nat
  | ModelSummary

text \<open>What the checkpoint store holds for one write.\<close>

record ('p, 'o) ckpt =
  ck_run :: string
  ck_model :: 'p
  ck_optimizer :: "'o optimizer"
  ck_best :: real
  ck_step :: int

subsection \<open>The namespace \<open>args\<close> and the environment\<close>

record ('p, 'o) args =
  train_percentage :: real
  batch_size :: int
  log_interval :: int
  epochs :: int
  device :: device
  network :: string
  image_shape :: "int list"
  optimizer :: "'o optimizer"
  learning_rate :: real
  sigma :: real
  dataset :: string
  checkpoint :: string
  predict :: pyval
  plot :: bool
  summary :: bool
  run :: string
  net :: "'p option"
  criterion :: criterion
  best :: pyfloat
  running_loss :: real
  train_loss :: real
  train_acc :: real
  dataset_size :: nat
  dataloader_size :: nat
  writer :: "wcall list option"
  step :: int
  stdout :: "line list"
  stdin :: "string list"
  store :: "(string \<times> ('p, 'o) ckpt) list"
  rng :: nat

text \<open>
  \<open>writer\<close> and \<open>net\<close> are \<open>None\<close> while the attribute does not exist. \<open>step\<close> is
  where a restored checkpoint's step counter goes; train.py itself never reads it. The
  last four fields are the environment: what was printed, the lines waiting on standard
  input, the checkpoints written (oldest first), and the number of random orders drawn
  so far.
\<close>

type_synonym ('a, 'p, 'o) res = "(error + 'a) \<times> ('p, 'o) args"

definition seq ::
  "('a, 'p, 'o) res \<Rightarrow> ('a \<Rightarrow> ('p, 'o) args \<Rightarrow> ('b, 'p, 'o) res) \<Rightarrow> ('b, 'p, 'o) res" where
  "seq m f = (case m of (Inl e, s) \<Rightarrow> (Inl e, s) | (Inr a, s) \<Rightarrow> f a s)"

definition print :: "line \<Rightarrow> ('p, 'o) args \<Rightarrow> ('p, 'o) args" where
  "print l s = s\<lparr>stdout := stdout s @ [l]\<rparr>"

text \<open>A method call on \<open>args.writer\<close>: AttributeError while the attribute is missing.\<close>

definition writer_call :: "wcall \<Rightarrow> ('p, 'o) args \<Rightarrow> (unit, 'p, 'o) res" where
  "writer_call w s =
     (case writer s of
        None \<Rightarrow> (Inl (AttributeError ''writer''), s)
      | Some ws \<Rightarrow> (Inr (), s\<lparr>writer := Some (ws @ [w])\<rparr>))"

subsection \<open>Code of the repository outside train.py, and the framework\<close>

text \<open>
  The network (network.py) and the framework's optimizers and random sampler are not
  part of the sources at hand; the driver is modelled over any implementation of them. \<open>rnd k\<close> gives the random keys of the k-th shuffled pass of
  a data loader.
\<close>

record ('p, 'o) collab =
  forward :: "'p \<Rightarrow> tensor \<Rightarrow> tensor"
  opt_init :: "'p \<Rightarrow> 'o"
  backward_step :: "'o optimizer \<Rightarrow> 'p \<Rightarrow> tensor \<Rightarrow> tensor \<Rightarrow> 'o optimizer \<times> 'p"
  rnd :: "nat \<Rightarrow> nat \<Rightarrow> nat"

subsection \<open>The checkpoint helpers of utils.py\<close>

text \<open>
  Modelled from the spec: \<open>process_checkpoint\<close> of utils.py, which is not among the
  sources. Section 4.4: given the most recent training loss and the current best, if the
  new loss is strictly lower, persist model state, optimizer state, new best and global
  step to the checkpoint store under the current run identifier and update best;
  otherwise no write occurs.
\<close>

definition process_checkpoint ::
  "real \<Rightarrow> int \<Rightarrow> ('p, 'o) args \<Rightarrow> (unit, 'p, 'o) res" where
  "process_checkpoint loss global_step s =
     (if float_lt loss (best s) then
        (case net s of
           None \<Rightarrow> (Inl (AttributeError ''net''), s)
         | Some p \<Rightarrow>
             (Inr (), s\<lparr>store := store s @
                              [(run s, \<lparr>ck_run = run s, ck_model = p,
                                         ck_optimizer = optimizer s,
                                         ck_best = loss, ck_step = global_step\<rparr>)],
                         best := Fin loss\<rparr>))
      else (Inr (), s))"

text \<open>
  Modelled from the spec: \<open>restore_checkpoint\<close> of utils.py, which is not among the
  sources. Sections 3, 4.4 and 7: a checkpoint is read at startup if a path is supplied
  (the option's default is the string none); restoring reproduces model weights,
  optimizer state, best loss and step; an unreadable checkpoint is a CheckpointError.
\<close>

definition restore_checkpoint :: "('p, 'o) args \<Rightarrow> (unit, 'p, 'o) res" where
  "restore_checkpoint s =
     (if checkpoint s = ''none'' then (Inr (), s)
      else
        (case map_of (rev (store s)) (checkpoint s) of
           None \<Rightarrow> (Inl CheckpointError, s)
         | Some k \<Rightarrow>
             (Inr (), s\<lparr>net := Some (ck_model k), optimizer := ck_optimizer k,
                         best := Fin (ck_best k), step := ck_step k\<rparr>)))"

subsection \<open>get_max of utils.py\<close>

text \<open>
  Modelled from the spec: \<open>get_max\<close> of utils.py, which is not among the sources.
  Section 4.5: for each batch it extracts, per channel, the 2-D coordinate of the maximum
  activation. The driver calls it with \<open>dim=(2, 3)\<close>, the height and width axes. The
  first maximum in row-major order is taken; a channel without pixels gives (0, 0).
\<close>

definition cells :: "real list list \<Rightarrow> ((nat \<times> nat) \<times> real) list" where
  "cells ch =
     concat (map (\<lambda>(i, row). map (\<lambda>(j, v). ((i, j), v)) (enumerate 0 row)) (enumerate 0 ch))"

fun best_cell ::
  "(nat \<times> nat) \<times> real \<Rightarrow> ((nat \<times> nat) \<times> real) list \<Rightarrow> (nat \<times> nat) \<times> real" where
  "best_cell b [] = b"
| "best_cell b (x # xs) = best_cell (if snd b < snd x then x else b) xs"

definition argmax2d :: "real list list \<Rightarrow> nat \<times> nat" where
  "argmax2d ch = (case cells ch of [] \<Rightarrow> (0, 0) | x # xs \<Rightarrow> fst (best_cell x xs))"

definition get_max :: "tensor \<Rightarrow> (nat \<times> nat) list list" where
  "get_max t = map (map argmax2d) t"

subsection \<open>The data loader\<close>

record 'a loader =
  ld_dataset :: "'a list"
  ld_batch_size :: nat
  ld_shuffle :: bool

text \<open>\<open>torch.utils.data.DataLoader(ds, batch_size=b, shuffle=sh, drop_last=False)\<close>.\<close>

definition DataLoader :: "'a list \<Rightarrow> int \<Rightarrow> bool \<Rightarrow> error + 'a loader" where
  "DataLoader ds b sh =
     (if b \<le> 0 then Inl (ValueError ''batch_size'')
      else Inr \<lparr>ld_dataset = ds, ld_batch_size = nat b, ld_shuffle = sh\<rparr>)"

text \<open>\<open>len(loader)\<close> when the partial batch is kept.\<close>

definition loader_len :: "'a loader \<Rightarrow> nat" where
  "loader_len l = (length (ld_dataset l) + ld_batch_size l - 1) div ld_batch_size l"

function chunks :: "nat \<Rightarrow> 'a list \<Rightarrow> 'a list list" where
  "chunks n xs = (if n = 0 \<or> xs = [] then [] else take n xs # chunks n (drop n xs))"
  by pat_completeness auto
termination
  by (relation "measure (\<lambda>(n, xs). length xs)") auto

declare chunks.simps [simp del]

text \<open>A random order: the samples sorted by the random keys of their positions.\<close>

definition shuffle_by :: "(nat \<Rightarrow> nat) \<Rightarrow> 'a list \<Rightarrow> 'a list" where
  "shuffle_by key xs = map snd (sort_key (\<lambda>ix. key (fst ix)) (enumerate 0 xs))"

text \<open>One pass over a loader: the batches in order, a new random order when it shuffles.\<close>

definition iter_loader ::
  "('p, 'o) collab \<Rightarrow> 'a loader \<Rightarrow> ('p, 'o) args \<Rightarrow> 'a list list \<times> ('p, 'o) args" where
  "iter_loader c l s =
     (if ld_shuffle l
      then (chunks (ld_batch_size l) (shuffle_by (rnd c (rng s)) (ld_dataset l)),
            s\<lparr>rng := rng s + 1\<rparr>)
      else (chunks (ld_batch_size l) (ld_dataset l), s))"

subsection \<open>add_tensorboard\<close>

text \<open>
  Four image grids under the given name, at the given step. The grids themselves come
  from heatmap.py and torchvision and are left out.
\<close>

definition add_tensorboard ::
  "tensor \<Rightarrow> tensor \<Rightarrow> tensor \<Rightarrow> int \<Rightarrow> string \<Rightarrow> ('p, 'o) args \<Rightarrow> (unit, 'p, 'o) res" where
  "add_tensorboard inputs targets outputs global_step name s =
     seq (writer_call (AddImage (name @ ''/gt'') (Some global_step)) s) (\<lambda>_ s.
     seq (writer_call (AddImage (name @ ''/gt_image'') (Some global_step)) s) (\<lambda>_ s.
     seq (writer_call (AddImage (name @ ''/pred'') (Some global_step)) s) (\<lambda>_ s.
     writer_call (AddImage (name @ ''/pred_image'') (Some global_step)) s)))"

subsection \<open>validate\<close>

definition apply_criterion :: "criterion \<Rightarrow> tensor \<Rightarrow> tensor \<Rightarrow> error + real" where
  "apply_criterion cr outputs targets =
     (case cr of
        NoCriterion \<Rightarrow> Inl (AttributeError ''criterion'')
      | MSELoss \<Rightarrow> Inr (mse_loss outputs targets))"

definition call_net :: "('p, 'o) collab \<Rightarrow> tensor \<Rightarrow> ('p, 'o) args \<Rightarrow> error + tensor" where
  "call_net c inputs s =
     (case net s of
        None \<Rightarrow> Inl (AttributeError ''net'')
      | Some p \<Rightarrow> Inr (forward c p inputs))"

text \<open>The body of the loop of validate, from batch number \<open>batch_idx\<close> on.\<close>

fun validate_loop ::
  "('p, 'o) collab \<Rightarrow> sample list list \<Rightarrow> nat \<Rightarrow> int \<Rightarrow> real \<Rightarrow> ('p, 'o) args
     \<Rightarrow> (real, 'p, 'o) res" where
  "validate_loop c [] batch_idx global_step run_loss s = (Inr run_loss, s)"
| "validate_loop c (batch # rest) batch_idx global_step run_loss s =
     (let inputs = map fst batch; targets = map snd batch in
      case call_net c inputs s of
        Inl e \<Rightarrow> (Inl e, s)
      | Inr outputs \<Rightarrow>
          (case apply_criterion (criterion s) outputs targets of
             Inl e \<Rightarrow> (Inl e, s)
           | Inr loss \<Rightarrow>
               seq (if batch_idx = 1
                    then add_tensorboard inputs targets outputs global_step ''Valid'' s
                    else (Inr (), s))
                 (\<lambda>_ s. validate_loop c rest (batch_idx + 1) global_step (run_loss + loss) s)))"

definition validate ::
  "('p, 'o) collab \<Rightarrow> sample list \<Rightarrow> bool \<Rightarrow> bool \<Rightarrow> int \<Rightarrow> ('p, 'o) args
     \<Rightarrow> (real, 'p, 'o) res" where
  "validate c validset print_info log_info global_step s =
     (case DataLoader validset (batch_size s) True of
        Inl e \<Rightarrow> (Inl e, s)
      | Inr valid_loader \<Rightarrow>
          (let s = (if print_info then print StartedValidation s else s);
               (batches, s) = iter_loader c valid_loader s
           in seq (validate_loop c batches 1 global_step 0 s) (\<lambda>run_loss s.
              seq (if log_info
                   then (case writer s of
                           None \<Rightarrow> (Inl (AttributeError ''writer''), s)
                         | Some _ \<Rightarrow>
                             if loader_len valid_loader = 0 then (Inl ZeroDivisionError, s)
                             else writer_call
                                    (AddScalar ''Valid/loss''
                                       (run_loss / real (loader_len valid_loader)) global_step) s)
                   else (Inr (), s)) (\<lambda>_ s.
              if loader_len valid_loader = 0 then (Inl ZeroDivisionError, s)
              else (Inr (run_loss / real (loader_len valid_loader)), s)))))"

subsection \<open>batch_status\<close>

definition batch_status ::
  "('p, 'o) collab \<Rightarrow> nat \<Rightarrow> tensor \<Rightarrow> tensor \<Rightarrow> tensor \<Rightarrow> nat \<Rightarrow> sample loader \<Rightarrow> real
     \<Rightarrow> sample list \<Rightarrow> ('p, 'o) args \<Rightarrow> (unit, 'p, 'o) res" where
  "batch_status c batch_idx inputs outputs targets epoch train_loader loss validset s =
     (let global_step = int batch_idx + int (loader_len train_loader) * int epoch;
          s = s\<lparr>running_loss := running_loss s + loss\<rparr>;
          s = s\<lparr>train_loss := train_loss s + loss\<rparr>
      in seq (writer_call (AddScalar ''Train/loss'' loss global_step) s) (\<lambda>_ s.
         seq (if log_interval s = 0 then (Inl ZeroDivisionError, s)
              else if global_step mod log_interval s = 0 then
                seq (validate c validset False True global_step s) (\<lambda>vloss s.
                seq (add_tensorboard inputs targets outputs global_step ''Train'' s) (\<lambda>_ s.
                seq (process_checkpoint loss global_step s) (\<lambda>_ s.
                if dataloader_size s = 0 then (Inl ZeroDivisionError, s)
                else
                  (let s = print (Status (int epoch) (int batch_idx)
                                    (batch_size s * int batch_idx) (int (dataset_size s))
                                    (100 * real batch_idx / real (dataloader_size s))
                                    (running_loss s / real_of_int (log_interval s)) vloss) s
                   in (Inr (), s\<lparr>running_loss := 0\<rparr>)))))
              else (Inr (), s)) (\<lambda>_ s.
         writer_call Flush s)))"

subsection \<open>train\<close>

text \<open>
  The inner loop of train from batch number \<open>batch_idx\<close> on. \<open>outputs\<close> is computed before
  the optimizer step and handed to \<open>batch_status\<close> after it.
\<close>

fun train_batches ::
  "('p, 'o) collab \<Rightarrow> sample list list \<Rightarrow> nat \<Rightarrow> nat \<Rightarrow> sample loader \<Rightarrow> sample list
     \<Rightarrow> ('p, 'o) args \<Rightarrow> (unit, 'p, 'o) res" where
  "train_batches c [] batch_idx epoch train_loader validset s = (Inr (), s)"
| "train_batches c (batch # rest) batch_idx epoch train_loader validset s =
     (let inputs = map fst batch; targets = map snd batch in
      case optimizer s of
        OptName _ \<Rightarrow> (Inl (AttributeError ''zero_grad''), s)
      | _ \<Rightarrow>
          (case net s of
             None \<Rightarrow> (Inl (AttributeError ''net''), s)
           | Some p \<Rightarrow>
               (let outputs = forward c p inputs in
                case apply_criterion (criterion s) outputs targets of
                  Inl e \<Rightarrow> (Inl e, s)
                | Inr loss \<Rightarrow>
                    (let (opt, p') = backward_step c (optimizer s) p inputs targets;
                         s = s\<lparr>optimizer := opt, net := Some p'\<rparr>
                     in seq (batch_status c batch_idx inputs outputs targets epoch
                               train_loader loss validset s)
                          (\<lambda>_ s. train_batches c rest (batch_idx + 1) epoch
                                    train_loader validset s)))))"

text \<open>The outer loop over the epochs still to run.\<close>

fun train_epochs ::
  "('p, 'o) collab \<Rightarrow> nat list \<Rightarrow> sample loader \<Rightarrow> sample list \<Rightarrow> ('p, 'o) args
     \<Rightarrow> (unit, 'p, 'o) res" where
  "train_epochs c [] train_loader validset s = (Inr (), s)"
| "train_epochs c (epoch # rest) train_loader validset s =
     (let s = s\<lparr>train_loss := 0, train_acc := 0, running_loss := 0\<rparr>;
          (batches, s) = iter_loader c train_loader s
      in seq (train_batches c batches 1 epoch train_loader validset s) (\<lambda>_ s.
         if loader_len train_loader = 0 then (Inl ZeroDivisionError, s)
         else train_epochs c rest train_loader validset
                (print (EpochAverage epoch (train_loss s / real (loader_len train_loader))) s)))"

text \<open>
  train up to the line before the loop: the loader, the two batches taken from a first
  pass, the optional sample plot, the optimizer, the loss, the restored checkpoint and
  the initial best.
\<close>

definition train_setup ::
  "('p, 'o) collab \<Rightarrow> sample list \<Rightarrow> ('p, 'o) args \<Rightarrow> (sample loader, 'p, 'o) res" where
  "train_setup c trainset s =
     (case DataLoader trainset (batch_size s) True of
        Inl e \<Rightarrow> (Inl e, s)
      | Inr train_loader \<Rightarrow>
          (let s = s\<lparr>dataset_size := length (ld_dataset train_loader)\<rparr>;
               s = s\<lparr>dataloader_size := loader_len train_loader\<rparr>;
               (dataiter, s) = iter_loader c train_loader s
           in case dataiter of
                [] \<Rightarrow> (Inl StopIteration, s)
              | [_] \<Rightarrow> (Inl StopIteration, s)
              | _ # _ # _ \<Rightarrow>
                  seq (if plot s then writer_call (AddImage ''Sample'' None) s
                       else (Inr (), s)) (\<lambda>_ s.
                  seq (if optimizer s = OptName ''adam'' then
                         (case net s of
                            None \<Rightarrow> (Inl (AttributeError ''net''), s)
                          | Some p \<Rightarrow>
                              (Inr (), s\<lparr>optimizer := Adam (learning_rate s) (opt_init c p)\<rparr>))
                       else if optimizer s = OptName ''sgd'' then
                         (case net s of
                            None \<Rightarrow> (Inl (AttributeError ''net''), s)
                          | Some p \<Rightarrow>
                              (Inr (), s\<lparr>optimizer := SGD (learning_rate s) (opt_init c p)\<rparr>))
                       else (Inr (), s)) (\<lambda>_ s.
                  seq (restore_checkpoint (s\<lparr>criterion := MSELoss\<rparr>)) (\<lambda>_ s.
                  (Inr train_loader, print StartedTraining (s\<lparr>best := PInf\<rparr>)))))))"

definition train ::
  "('p, 'o) collab \<Rightarrow> sample list \<Rightarrow> sample list \<Rightarrow> ('p, 'o) args \<Rightarrow> (unit, 'p, 'o) res" where
  "train c trainset validset s =
     seq (train_setup c trainset s) (\<lambda>train_loader s.
     seq (train_epochs c [0..<nat (epochs s)] train_loader validset s) (\<lambda>_ s.
     (Inr (), print FinishedTraining s)))"

subsection \<open>predict_test\<close>

text \<open>The \<open>.shape\<close> of a 4-axis tensor and of the index tensor \<open>get_max\<close> returns.\<close>

definition shape :: "tensor \<Rightarrow> nat list" where
  "shape t =
     (case t of
        [] \<Rightarrow> [0]
      | im # _ \<Rightarrow>
          length t #
            (case im of
               [] \<Rightarrow> [0]
             | ch # _ \<Rightarrow> length im # (case ch of [] \<Rightarrow> [0] | row # _ \<Rightarrow> [length ch, length row])))"

definition idx_shape :: "(nat \<times> nat) list list \<Rightarrow> nat list" where
  "idx_shape idx = (case idx of [] \<Rightarrow> [0] | r # _ \<Rightarrow> [length idx, length r, 2])"

text \<open>
  The loop of predict_test from batch number \<open>batch_idx\<close> on. \<open>input()\<close> takes a line
  from standard input and raises EOFError when there is none. The test on the batch
  number comes last in the body: the batch on which it fails has been processed.
\<close>

fun predict_loop ::
  "('p, 'o) collab \<Rightarrow> sample list list \<Rightarrow> nat \<Rightarrow> real \<Rightarrow> ('p, 'o) args
     \<Rightarrow> (unit, 'p, 'o) res" where
  "predict_loop c [] batch_idx run_loss s = (Inr (), s)"
| "predict_loop c (batch # rest) batch_idx run_loss s =
     (let inputs = map fst batch; targets = map snd batch in
      case call_net c inputs s of
        Inl e \<Rightarrow> (Inl e, s)
      | Inr outputs \<Rightarrow>
          (let s = print (Shape (shape outputs)) s;
               idx_inpt = get_max inputs;
               idx_otpt = get_max outputs;
               s = print (Shape (idx_shape idx_inpt)) s;
               s = print (Indices idx_inpt) s;
               s = print (Shape (idx_shape idx_otpt)) s;
               s = print (Indices idx_otpt) s
           in case stdin s of
                [] \<Rightarrow> (Inl EOFError, s)
              | _ # lines \<Rightarrow>
                  (let s = s\<lparr>stdin := lines\<rparr> in
                   case apply_criterion (criterion s) outputs targets of
                     Inl e \<Rightarrow> (Inl e, s)
                   | Inr loss \<Rightarrow>
                       if batch_idx < 10
                       then predict_loop c rest (batch_idx + 1) (run_loss + loss) s
                       else (Inr (), s))))"

definition predict_test ::
  "('p, 'o) collab \<Rightarrow> sample list \<Rightarrow> ('p, 'o) args \<Rightarrow> (unit, 'p, 'o) res" where
  "predict_test c testset s =
     (case DataLoader testset (batch_size s) False of
        Inl e \<Rightarrow> (Inl e, s)
      | Inr test_loader \<Rightarrow>
          seq (restore_checkpoint s) (\<lambda>_ s.
            (let s = s\<lparr>criterion := MSELoss\<rparr>;
                 (batches, s) = iter_loader c test_loader s
             in predict_loop c batches 1 0 s)))"

subsection \<open>The parser and main\<close>

text \<open>
  An option declared with \<open>action='store_true'\<close>: False by default, True when one of its
  flags is on the command line.
\<close>

definition store_true :: "string list \<Rightarrow> string list \<Rightarrow> pyval" where
  "store_true flags argv = PyBool (list_ex (\<lambda>a. a \<in> set flags) argv)"

text \<open>Python's truth value of such an option.\<close>

fun truthy :: "pyval \<Rightarrow> bool" where
  "truthy PyNone = False"
| "truthy (PyBool b) = b"

text \<open>
  What main calls outside train.py: the helpers of utils.py and the network class of
  network.py, each free to read and change the namespace it is given, and the framework's
  test for an accelerator.
\<close>

record ('p, 'o) extern =
  cuda_is_available :: bool
  read_checkpoint :: "('p, 'o) args \<Rightarrow> (unit, 'p, 'o) res"
  create_run_name :: "('p, 'o) args \<Rightarrow> (string, 'p, 'o) res"
  load_dataset :: "('p, 'o) args \<Rightarrow> (sample list \<times> sample list \<times> sample list, 'p, 'o) res"
  get_hparams :: "('p, 'o) args \<Rightarrow> (unit, 'p, 'o) res"
  Resnet_Posture :: "('p, 'o) args \<Rightarrow> ('p, 'p, 'o) res"
  trainable :: "'p \<Rightarrow> nat"

text \<open>Lines 319 to 323 of main: the device.\<close>

definition set_up_gpu :: "bool \<Rightarrow> ('p, 'o) args \<Rightarrow> ('p, 'o) args" where
  "set_up_gpu available s =
     (if device s \<noteq> DevName ''cpu''
      then s\<lparr>device := TorchDevice (if available then ''cuda:0'' else ''cpu'')\<rparr>
      else s)"

text \<open>
  main from the checkpoint parameters to the count of trainable parameters. It returns
  the three partitions, or nothing when the dataset option is not coco and the names
  \<open>trn\<close>, \<open>vld\<close> and \<open>tst\<close> are never bound.
\<close>

definition main_prepare ::
  "('p, 'o) extern \<Rightarrow> ('p, 'o) args
     \<Rightarrow> ((sample list \<times> sample list \<times> sample list) option, 'p, 'o) res" where
  "main_prepare x s =
     seq (if checkpoint s \<noteq> [] then read_checkpoint x s else (Inr (), s)) (\<lambda>_ s.
     seq (create_run_name x s) (\<lambda>name s.
     (let s = s\<lparr>run := name\<rparr>;
          s = print (RunLine (run s)) s;
          s = (if predict s = PyNone then s\<lparr>writer := Some []\<rparr> else s)
      in seq (if dataset s = ''coco''
              then seq (load_dataset x s) (\<lambda>d s. (Inr (Some d), s))
              else (Inr None, s)) (\<lambda>data s.
         seq (get_hparams x s) (\<lambda>_ s.
         seq (if network s = ''posture''
              then seq (Resnet_Posture x (print Parameters s)) (\<lambda>p s. (Inr (Some p), s))
              else (Inr None, print Parameters s)) (\<lambda>created s.
         case created of
           None \<Rightarrow> (Inl (NameError ''net''), s)
         | Some p \<Rightarrow>
             (let s = s\<lparr>net := Some p\<rparr>
              in (Inr data, print (TrainableParameters (trainable x p)) s))))))))"

definition main_rest ::
  "('p, 'o) extern \<Rightarrow> ('p, 'o) collab \<Rightarrow> ('p, 'o) args \<Rightarrow> (unit, 'p, 'o) res" where
  "main_rest x c s =
     seq (main_prepare x s) (\<lambda>data s.
     if summary s then (Inr (), print ModelSummary s)
     else
       seq (case data of
              None \<Rightarrow> (Inl (NameError (if truthy (predict s) then ''tst'' else ''trn'')), s)
            | Some (trn, vld, tst) \<Rightarrow>
                if truthy (predict s) then predict_test c tst s else train c trn vld s) (\<lambda>_ s.
       (let s = s\<lparr>net := None\<rparr>
        in if predict s = PyNone then writer_call Close s else (Inr (), s))))"

definition main ::
  "('p, 'o) extern \<Rightarrow> ('p, 'o) collab \<Rightarrow> ('p, 'o) args \<Rightarrow> (unit, 'p, 'o) res" where
  "main x c s =
     (let s = set_up_gpu (cuda_is_available x) s;
          s = print (DeviceLine (device s)) s
      in main_rest x c s)"

subsection \<open>Auxiliary notions for the properties\<close>

text \<open>
  The part of the state that logging, printing and drawing a random order leave alone,
  and the four image calls of \<open>add_tensorboard\<close>.
\<close>

definition frame :: "('p, 'o) args \<Rightarrow> ('p, 'o) args" where
  "frame s = s\<lparr>writer := None, stdout := [], rng := 0\<rparr>"

definition only_log :: "('p, 'o) args \<Rightarrow> ('p, 'o) args \<Rightarrow> bool" where
  "only_log s s' \<longleftrightarrow> frame s' = frame s"

definition grids :: "string \<Rightarrow> int \<Rightarrow> wcall list" where
  "grids name g =
     [AddImage (name @ ''/gt'') (Some g), AddImage (name @ ''/gt_image'') (Some g),
      AddImage (name @ ''/pred'') (Some g), AddImage (name @ ''/pred_image'') (Some g)]"

definition batch_loss :: "('p, 'o) collab \<Rightarrow> 'p \<Rightarrow> sample list \<Rightarrow> real" where
  "batch_loss c p batch = mse_loss (forward c p (map fst batch)) (map snd batch)"

definition mean_loss :: "('p, 'o) collab \<Rightarrow> 'p \<Rightarrow> sample list list \<Rightarrow> real" where
  "mean_loss c p batches = sum_list (map (batch_loss c p) batches) / real (length batches)"

definition valid_batches ::
  "('p, 'o) collab \<Rightarrow> sample list \<Rightarrow> ('p, 'o) args \<Rightarrow> sample list list" where
  "valid_batches c validset s =
     chunks (nat (batch_size s)) (shuffle_by (rnd c (rng s)) validset)"

text \<open>
  A small concrete run for the examples: a one-parameter network that scales every
  pixel, an optimizer step that lowers the parameter by a tenth, the identity order for
  every shuffle, and one-pixel samples.
\<close>

definition demo :: "(real, unit) collab" where
  "demo = \<lparr>forward = (\<lambda>p. map (map (map (map (\<lambda>v. p * v))))),
            opt_init = (\<lambda>_. ()),
            backward_step = (\<lambda>opt p inputs targets. (opt, p - 1 / 10)),
            rnd = (\<lambda>k i. 0)\<rparr>"

definition px :: "real \<Rightarrow> real \<Rightarrow> sample" where
  "px x y = ([[[x]]], [[[y]]])"

definition args0 :: "(real, unit) args" where
  "args0 = \<lparr>train_percentage = 9 / 10, batch_size = 2, log_interval = 2, epochs = 2,
             device = DevName ''cpu'', network = ''posture'', image_shape = [256, 192],
             optimizer = OptName ''adam'', learning_rate = 1 / 10000, sigma = 2,
             dataset = ''coco'', checkpoint = ''none'', predict = PyBool False,
             plot = False, summary = False, run = ''demo'', net = Some 1,
             criterion = MSELoss, best = PInf, running_loss = 0, train_loss = 0,
             train_acc = 0, dataset_size = 0, dataloader_size = 0, writer = Some [],
             step = 0, stdout = [], stdin = [], store = [], rng = 0\<rparr>"

text \<open>The state in which train calls \<open>batch_status\<close> in the examples.\<close>

definition args1 :: "(real, unit) args" where
  "args1 = args0\<lparr>optimizer := Adam (1 / 10000) (), dataset_size := 3, dataloader_size := 2,
                  running_loss := 1 / 4, train_loss := 1 / 4\<rparr>"

definition loader0 :: "sample loader" where
  "loader0 = \<lparr>ld_dataset = [px 1 2, px 2 2, px 3 0], ld_batch_size = 2, ld_shuffle = True\<rparr>"

text \<open>The global steps under which the training loss was logged, in order.\<close>

fun train_step :: "wcall \<Rightarrow> int list" where
  "train_step (AddScalar name v g) = (if name = ''Train/loss'' then [g] else [])"
| "train_step _ = []"

definition logged_steps :: "wcall list \<Rightarrow> int list" where
  "logged_steps ws = concat (map train_step ws)"

definition trainset7 :: "sample list" where
  "trainset7 = [px 1 1, px 2 2, px 3 3, px 4 4, px 5 5, px 6 6, px 7 7]"

definition args7 :: "(real, unit) args" where
  "args7 = args0\<lparr>batch_size := 1, log_interval := 50, epochs := 1\<rparr>"

text \<open>
  A namespace whose checkpoint option names a stored checkpoint with best loss 0.3,
  written at step 50.
\<close>

definition argsR :: "(real, unit) args" where
  "argsR = args7\<lparr>checkpoint := ''ck'',
                  store := [(''ck'', \<lparr>ck_run = ''demo'', ck_model = 1,
                                      ck_optimizer = Adam (1 / 10000) (),
                                      ck_best = 3 / 10, ck_step = 50\<rparr>)]\<rparr>"

text \<open>What predict_test prints for one batch.\<close>

definition predict_lines :: "('p, 'o) collab \<Rightarrow> 'p \<Rightarrow> sample list \<Rightarrow> line list" where
  "predict_lines c p batch =
     [Shape (shape (forward c p (map fst batch))),
      Shape (idx_shape (get_max (map fst batch))),
      Indices (get_max (map fst batch)),
      Shape (idx_shape (get_max (forward c p (map fst batch)))),
      Indices (get_max (forward c p (map fst batch)))]"

text \<open>Twelve one-pixel samples, and twelve lines waiting on standard input.\<close>

definition testset12 :: "sample list" where
  "testset12 = map (\<lambda>k. px (real k) (real k)) [1..<13]"

definition argsP :: "(real, unit) args" where
  "argsP = args7\<lparr>predict := PyBool True, stdin := replicate 12 []\<rparr>"

text \<open>
  The options as the loops find them: every field of the namespace that the training,
  validation and inference code only reads, except the optimizer.
\<close>

definition loop_frame :: "('p, 'o) args \<Rightarrow> ('p, 'o) args" where
  "loop_frame s =
     s\<lparr>optimizer := OptName [], net := None, criterion := NoCriterion, best := PInf,
       running_loss := 0, train_loss := 0, train_acc := 0, dataset_size := 0,
       dataloader_size := 0, writer := None, step := 0, stdout := [], stdin := [],
       store := [], rng := 0\<rparr>"

definition kept :: "('p, 'o) args \<Rightarrow> ('p, 'o) args \<Rightarrow> bool" where
  "kept s s' \<longleftrightarrow> loop_frame s' = loop_frame s \<and> (writer s = None \<longrightarrow> writer s' = None)"

text \<open>All parsed options but the optimizer, and the run name.\<close>

definition options ::
  "('p, 'o) args \<Rightarrow>
     (real \<times> int \<times> int \<times> int \<times> device \<times> string \<times> int list \<times> real \<times> real \<times> string \<times>
      string \<times> string) \<times> pyval \<times> bool \<times> bool" where
  "options s =
     ((train_percentage s, batch_size s, log_interval s, epochs s, device s, network s,
       image_shape s, learning_rate s, sigma s, dataset s, checkpoint s, run s),
      predict s, plot s, summary s)"

text \<open>The helpers called by main assign neither \<open>args.writer\<close> nor \<open>args.predict\<close>.\<close>

definition leaves_alone :: "('p, 'o) extern \<Rightarrow> bool" where
  "leaves_alone x \<longleftrightarrow>
     (\<forall>s. writer (snd (read_checkpoint x s)) = writer s \<and>
          predict (snd (read_checkpoint x s)) = predict s) \<and>
     (\<forall>s. writer (snd (create_run_name x s)) = writer s \<and>
          predict (snd (create_run_name x s)) = predict s) \<and>
     (\<forall>s. writer (snd (load_dataset x s)) = writer s \<and>
          predict (snd (load_dataset x s)) = predict s) \<and>
     (\<forall>s. writer (snd (get_hparams x s)) = writer s \<and>
          predict (snd (get_hparams x s)) = predict s) \<and>
     (\<forall>s. writer (snd (Resnet_Posture x s)) = writer s \<and>
          predict (snd (Resnet_Posture x s)) = predict s)"

text \<open>No writer in the namespace, and a prediction flag that is not \<open>None\<close>.\<close>

definition no_writer :: "('p, 'o) args \<Rightarrow> bool" where
  "no_writer s \<longleftrightarrow> writer s = None \<and> predict s \<noteq> PyNone"

text \<open>Helpers for the examples: they return fixed values and leave the namespace alone.\<close>

definition demo_extern :: "(real, unit) extern" where
  "demo_extern =
     \<lparr>cuda_is_available = False,
      read_checkpoint = (\<lambda>s. (Inr (), s)),
      create_run_name = (\<lambda>s. (Inr ''demo'', s)),
      load_dataset = (\<lambda>s. (Inr (trainset7, [px 1 1], testset12), s)),
      get_hparams = (\<lambda>s. (Inr (), s)),
      Resnet_Posture = (\<lambda>s. (Inr 1, s)),
      trainable = (\<lambda>p. 1)\<rparr>"

text \<open>The namespace as the parser leaves it for the command line \<open>--device cuda\<close>.\<close>

definition argsW :: "(real, unit) args" where
  "argsW = args7\<lparr>device := DevName ''cuda'', writer := None, net := None,
                  predict := store_true [''--predict'', ''--pred''] [''--device'', ''cuda'']\<rparr>"

section \<open>Properties\<close>

subsection \<open>Sequencing and the writer\<close>

lemma seq_cases:
  "seq m f = (r, s') \<Longrightarrow>
     (\<exists>e. m = (Inl e, s') \<and> r = Inl e) \<or> (\<exists>a s1. m = (Inr a, s1) \<and> f a s1 = (r, s'))"
  by (auto simp: seq_def split: prod.splits sum.splits)

lemma seq_Inr:
  "seq m f = (Inr b, s') \<longleftrightarrow> (\<exists>a s1. m = (Inr a, s1) \<and> f a s1 = (Inr b, s'))"
  by (auto simp: seq_def split: prod.splits sum.splits)

lemma only_log_refl [simp]: "only_log s s"
  by (simp add: only_log_def)

lemma only_log_trans: "only_log s s1 \<Longrightarrow> only_log s1 s2 \<Longrightarrow> only_log s s2"
  by (simp add: only_log_def)

lemma only_log_upd [simp]:
  "only_log s (s'\<lparr>writer := w\<rparr>) = only_log s s'"
  "only_log s (s'\<lparr>stdout := l\<rparr>) = only_log s s'"
  "only_log s (s'\<lparr>rng := n\<rparr>) = only_log s s'"
  by (simp_all add: only_log_def frame_def)

lemma writer_call_only_log: "writer_call w s = (r, s') \<Longrightarrow> only_log s s'"
  by (auto simp: writer_call_def split: option.splits)


lemma seq_Inr_eq [simp]: "seq (Inr a, s) f = f a s"
  by (simp add: seq_def)

lemma seq_Inl_eq [simp]: "seq (Inl e, s) f = (Inl e, s)"
  by (simp add: seq_def)

lemma writer_call_Some:
  "writer s = Some ws \<Longrightarrow> writer_call w s = (Inr (), s\<lparr>writer := Some (ws @ [w])\<rparr>)"
  by (simp add: writer_call_def)

lemma writer_call_None:
  "writer s = None \<Longrightarrow> writer_call w s = (Inl (AttributeError ''writer''), s)"
  by (simp add: writer_call_def)

lemma add_tensorboard_Some:
  "writer s = Some ws \<Longrightarrow>
     add_tensorboard i t o' g n s = (Inr (), s\<lparr>writer := Some (ws @ grids n g)\<rparr>)"
  by (simp add: add_tensorboard_def writer_call_Some grids_def)

lemma add_tensorboard_None:
  "writer s = None \<Longrightarrow> add_tensorboard i t o' g n s = (Inl (AttributeError ''writer''), s)"
  by (simp add: add_tensorboard_def writer_call_None)

lemma add_tensorboard_only_log:
  "add_tensorboard i t o' g n s = (r, s') \<Longrightarrow> only_log s s'"
  by (cases "writer s") (auto simp: add_tensorboard_Some add_tensorboard_None)


lemma chunks_Nil [simp]: "chunks n [] = []"
  by (simp add: chunks.simps)

lemma chunks_Cons:
  "0 < n \<Longrightarrow> xs \<noteq> [] \<Longrightarrow> chunks n xs = take n xs # chunks n (drop n xs)"
  by (subst chunks.simps) simp

lemma concat_chunks: "0 < n \<Longrightarrow> concat (chunks n xs) = xs"
proof (induction n xs rule: chunks.induct)
  case (1 n xs)
  show ?case
  proof (cases "xs = []")
    case True
    then show ?thesis by simp
  next
    case False
    with 1 show ?thesis by (simp add: chunks_Cons)
  qed
qed

lemma length_chunks: "0 < n \<Longrightarrow> length (chunks n xs) = (length xs + n - 1) div n"
proof (induction n xs rule: chunks.induct)
  case (1 n xs)
  show ?case
  proof (cases "xs = []")
    case True
    with 1(2) show ?thesis by simp
  next
    case False
    then have pos: "0 < length xs" by simp
    have ih: "length (chunks n (drop n xs)) = (length xs - n + n - 1) div n"
      using 1 False by simp
    show ?thesis
    proof (cases "length xs \<le> n")
      case True
      have lo: "n * 1 \<le> length xs + n - 1" using pos by linarith
      have hi: "length xs + n - 1 < n * Suc 1" using True pos by (simp only: mult_Suc_right)
      from lo hi have "(length xs + n - 1) div n = 1" by (rule div_nat_eqI)
      with True ih 1(2) False show ?thesis
        by (simp add: chunks_Cons)
    next
      case False
      then have "length xs + n - 1 = (length xs - n + n - 1) + n" by simp
      then have "(length xs + n - 1) div n = Suc ((length xs - n + n - 1) div n)"
        using 1(2) by (metis div_add_self2 less_numeral_extra(3) Suc_eq_plus1)
      with ih 1(2) \<open>xs \<noteq> []\<close> show ?thesis
        by (simp add: chunks_Cons)
    qed
  qed
qed

lemma chunk_sizes: "b \<in> set (chunks n xs) \<Longrightarrow> 0 < length b \<and> length b \<le> n"
proof (induction n xs rule: chunks.induct)
  case (1 n xs)
  show ?case
  proof (cases "n = 0 \<or> xs = []")
    case True
    with 1(2) show ?thesis by (auto simp: chunks.simps)
  next
    case False
    with 1 show ?thesis by (auto simp: chunks_Cons)
  qed
qed

lemma chunks_full: "Suc i < length (chunks n xs) \<Longrightarrow> length (chunks n xs ! i) = n"
proof (induction n xs arbitrary: i rule: chunks.induct)
  case (1 n xs)
  show ?case
  proof (cases "n = 0 \<or> xs = []")
    case True
    with 1(2) show ?thesis by (auto simp: chunks.simps)
  next
    case False
    then have eq: "chunks n xs = take n xs # chunks n (drop n xs)"
      by (simp add: chunks_Cons)
    show ?thesis
    proof (cases i)
      case 0
      from 1(2) eq have "chunks n (drop n xs) \<noteq> []" by auto
      then have "drop n xs \<noteq> []" by auto
      then have "n < length xs" by simp
      with eq 0 show ?thesis by simp
    next
      case (Suc j)
      with 1 eq False show ?thesis by simp
    qed
  qed
qed

lemma mset_shuffle_by [simp]: "mset (shuffle_by key xs) = mset xs"
proof -
  have "mset (shuffle_by key xs) = image_mset snd (mset (enumerate 0 xs))"
    by (simp add: shuffle_by_def)
  also have "\<dots> = mset (map snd (enumerate 0 xs))"
    by (simp only: mset_map)
  also have "\<dots> = mset xs"
    by (simp only: map_snd_enumerate)
  finally show ?thesis .
qed

lemma length_shuffle_by [simp]: "length (shuffle_by key xs) = length xs"
  by (simp add: shuffle_by_def)

lemma validate_loop_later:
  "2 \<le> i \<Longrightarrow> net s = Some p \<Longrightarrow> criterion s = MSELoss \<Longrightarrow>
     validate_loop c bs i g acc s = (Inr (acc + sum_list (map (batch_loss c p) bs)), s)"
proof (induction bs arbitrary: i acc)
  case Nil
  then show ?case by simp
next
  case (Cons b bs)
  from Cons.prems have "validate_loop c bs (Suc i) g (acc + batch_loss c p b) s =
      (Inr (acc + batch_loss c p b + sum_list (map (batch_loss c p) bs)), s)"
    by (intro Cons.IH) simp_all
  with Cons.prems show ?case
    by (simp add: call_net_def apply_criterion_def batch_loss_def [symmetric] Let_def
        add.assoc)
qed

lemma validate_loop_first:
  assumes "net s = Some p" "criterion s = MSELoss" "writer s = Some ws"
  shows "validate_loop c (b # bs) (Suc 0) g acc s =
     (Inr (acc + sum_list (map (batch_loss c p) (b # bs))),
      s\<lparr>writer := Some (ws @ grids ''Valid'' g)\<rparr>)"
proof -
  let ?s = "s\<lparr>writer := Some (ws @ grids ''Valid'' g)\<rparr>"
  have "validate_loop c bs (Suc (Suc 0)) g (acc + batch_loss c p b) ?s =
      (Inr (acc + batch_loss c p b + sum_list (map (batch_loss c p) bs)), ?s)"
    using assms by (intro validate_loop_later) simp_all
  with assms show ?thesis
    by (simp add: call_net_def apply_criterion_def batch_loss_def [symmetric] Let_def
        add_tensorboard_Some add.assoc)
qed

lemma valid_batches_nonempty:
  "0 < batch_size s \<Longrightarrow> validset \<noteq> [] \<Longrightarrow> valid_batches c validset s \<noteq> []"
proof -
  assume a: "0 < batch_size s" "validset \<noteq> []"
  then have "shuffle_by (rnd c (rng s)) validset \<noteq> []"
    by (metis length_shuffle_by length_0_conv)
  with a show ?thesis
    by (simp add: valid_batches_def chunks_Cons)
qed

lemma loader_len_valid:
  "0 < batch_size s \<Longrightarrow>
     loader_len \<lparr>ld_dataset = validset, ld_batch_size = nat (batch_size s), ld_shuffle = sh\<rparr>
       = length (valid_batches c validset s)"
  by (simp add: loader_len_def valid_batches_def length_chunks)

lemma validate_ok:
  assumes "0 < batch_size s" "validset \<noteq> []" "net s = Some p" "criterion s = MSELoss"
    "writer s = Some ws"
  shows "validate c validset print_info log_info g s =
     (Inr (mean_loss c p (valid_batches c validset s)),
      s\<lparr>stdout := stdout s @ (if print_info then [StartedValidation] else []),
        rng := rng s + 1,
        writer := Some (ws @ grids ''Valid'' g @
                    (if log_info
                     then [AddScalar ''Valid/loss'' (mean_loss c p (valid_batches c validset s)) g]
                     else []))\<rparr>)"
proof -
  obtain b bs where bs: "valid_batches c validset s = b # bs"
    using valid_batches_nonempty [OF assms(1,2), of c] by (cases "valid_batches c validset s") auto
  have len: "loader_len \<lparr>ld_dataset = validset, ld_batch_size = nat (batch_size s), ld_shuffle = True\<rparr>
       = Suc (length bs)"
    using loader_len_valid [OF assms(1), of validset True c] bs by simp
  show ?thesis
    using assms bs len
    by (simp add: validate_def DataLoader_def iter_loader_def Let_def print_def
        validate_loop_first writer_call_Some mean_loss_def valid_batches_def [symmetric]
        del: validate_loop.simps)
qed

lemma validate_loop_fail:
  assumes "net s = None \<or> criterion s \<noteq> MSELoss \<or> writer s = None"
  shows "\<exists>e. validate_loop c (b # bs) (Suc 0) g acc s = (Inl e, s)"
proof (cases "net s")
  case None
  then show ?thesis by (simp add: call_net_def)
next
  case (Some p)
  show ?thesis
  proof (cases "criterion s")
    case NoCriterion
    with Some show ?thesis by (simp add: call_net_def apply_criterion_def)
  next
    case MSELoss
    with assms Some have "writer s = None" by simp
    with Some MSELoss show ?thesis
      by (simp add: call_net_def apply_criterion_def add_tensorboard_None)
  qed
qed

lemma validate_Inr_D:
  assumes "validate c validset print_info log_info g s = (Inr v, s')"
  shows "0 < batch_size s \<and> validset \<noteq> [] \<and> (\<exists>p. net s = Some p) \<and>
         criterion s = MSELoss \<and> (\<exists>ws. writer s = Some ws)"
proof -
  have pos: "0 < batch_size s"
    using assms by (cases "0 < batch_size s") (auto simp: validate_def DataLoader_def)
  have ne: "validset \<noteq> []"
  proof
    assume "validset = []"
    with pos have "\<exists>e s1. validate c validset print_info log_info g s = (Inl e, s1)"
      by (auto simp: validate_def DataLoader_def iter_loader_def shuffle_by_def loader_len_def
          Let_def split: option.splits)
    with assms show False by simp
  qed
  obtain b bs where bs: "valid_batches c validset s = b # bs"
    using valid_batches_nonempty [OF pos ne, of c] by (cases "valid_batches c validset s") auto
  have ok: "\<not> (net s = None \<or> criterion s \<noteq> MSELoss \<or> writer s = None)"
  proof
    assume bad: "net s = None \<or> criterion s \<noteq> MSELoss \<or> writer s = None"
    let ?s1 = "(if print_info then print StartedValidation s else s)\<lparr>rng := rng s + 1\<rparr>"
    from bad have "net ?s1 = None \<or> criterion ?s1 \<noteq> MSELoss \<or> writer ?s1 = None"
      by (simp add: print_def)
    then obtain e where "validate_loop c (b # bs) (Suc 0) g 0 ?s1 = (Inl e, ?s1)"
      using validate_loop_fail by blast
    with pos bs have "validate c validset print_info log_info g s = (Inl e, ?s1)"
      by (cases print_info) (simp_all add: validate_def DataLoader_def iter_loader_def Let_def print_def
          valid_batches_def [symmetric] del: validate_loop.simps)
    with assms show False by simp
  qed
  from pos ne ok show ?thesis by (cases "criterion s") auto
qed

text \<open>
  C5. On a non-empty validation partition, with a positive batch size and a namespace that
  holds the network, the loss and the writer, validate makes one pass over the batches of
  the shuffled partition: every sample is in exactly one batch, every batch but the last
  has the batch size and the last one is not dropped. It returns the sum of the
  mean-squared-error losses of the batches divided by the number of batches, leaves
  network and optimizer as they were, and logs the four grids under Valid once, for the
  first batch, at the caller's global step.
\<close>

theorem validate_mean_loss:
  assumes "0 < batch_size s" and "validset \<noteq> []" and "net s = Some p"
    and "criterion s = MSELoss" and "writer s = Some ws"
  shows "\<exists>s'. validate c validset print_info log_info g s =
            (Inr (sum_list (map (\<lambda>b. mse_loss (forward c p (map fst b)) (map snd b))
                            (valid_batches c validset s))
                    / real (length (valid_batches c validset s))), s') \<and>
          mset (concat (valid_batches c validset s)) = mset validset \<and>
          length (valid_batches c validset s) =
            (length validset + nat (batch_size s) - 1) div nat (batch_size s) \<and>
          (\<forall>i. Suc i < length (valid_batches c validset s) \<longrightarrow>
                length (valid_batches c validset s ! i) = nat (batch_size s)) \<and>
          (\<forall>b \<in> set (valid_batches c validset s).
                0 < length b \<and> length b \<le> nat (batch_size s)) \<and>
          writer s' = Some (ws @ grids ''Valid'' g @
                        (if log_info
                         then [AddScalar ''Valid/loss'' (mean_loss c p (valid_batches c validset s)) g]
                         else [])) \<and>
          net s' = net s \<and> optimizer s' = optimizer s"
proof -
  have n: "0 < nat (batch_size s)" using assms(1) by simp
  have m: "mean_loss c p (valid_batches c validset s) =
      sum_list (map (\<lambda>b. mse_loss (forward c p (map fst b)) (map snd b))
                 (valid_batches c validset s))
        / real (length (valid_batches c validset s))"
    by (simp add: mean_loss_def batch_loss_def [abs_def])
  have 1: "mset (concat (valid_batches c validset s)) = mset validset"
    using n by (simp add: valid_batches_def concat_chunks)
  have 2: "length (valid_batches c validset s) =
            (length validset + nat (batch_size s) - 1) div nat (batch_size s)"
    using n by (simp add: valid_batches_def length_chunks)
  have 3: "\<forall>i. Suc i < length (valid_batches c validset s) \<longrightarrow>
                length (valid_batches c validset s ! i) = nat (batch_size s)"
    by (simp add: valid_batches_def chunks_full)
  have 4: "\<forall>b \<in> set (valid_batches c validset s).
                0 < length b \<and> length b \<le> nat (batch_size s)"
    unfolding valid_batches_def using chunk_sizes by blast
  show ?thesis
    unfolding validate_ok [OF assms] m [symmetric]
    using 1 2 3 4 by simp
qed

theorem validate_mean_loss_witness:
  "0 < batch_size args0 \<and> [px 1 2, px 2 2, px 3 0] \<noteq> [] \<and> net args0 = Some 1 \<and>
   criterion args0 = MSELoss \<and> writer args0 = Some [] \<and>
   fst (validate demo [px 1 2, px 2 2, px 3 0] False True 50 args0) = Inr (19 / 4) \<and>
   writer (snd (validate demo [px 1 2, px 2 2, px 3 0] False True 50 args0)) =
     Some (grids ''Valid'' 50 @ [AddScalar ''Valid/loss'' (19 / 4) 50])"
proof -
  have b: "valid_batches demo [px 1 2, px 2 2, px 3 0] args0 = [[px 1 2, px 2 2], [px 3 0]]"
    by (simp add: valid_batches_def args0_def demo_def shuffle_by_def chunks.simps enumerate_eq_zip upt_rec)
  have h: "0 < batch_size args0" "[px 1 2, px 2 2, px 3 0] \<noteq> []" "net args0 = Some 1"
    "criterion args0 = MSELoss" "writer args0 = Some []"
    by (simp_all add: args0_def)
  note t = validate_mean_loss [OF h, of demo False True 50, unfolded b]
  show ?thesis
    using h t
    by (auto simp: mean_loss_def batch_loss_def mse_loss_def flat_def px_def demo_def
        power2_eq_square)
qed

text \<open>
  C6. A call of validate that returns changes nothing but the writer's log, the printed
  lines and the count of random orders drawn: the network's parameters and the optimizer
  are as before. A second call right after it, with any flags and step, returns the same
  mean loss, provided the sampler draws the same order for it.
\<close>

theorem validate_twice:
  assumes "validate c validset print_info log_info g s = (Inr v, s')"
    and "rnd c (rng s') = rnd c (rng s)"
  shows "only_log s s' \<and> net s' = net s \<and> optimizer s' = optimizer s \<and>
         (\<exists>s''. validate c validset print_info' log_info' g' s' = (Inr v, s'') \<and>
                net s'' = net s)"
proof -
  from validate_Inr_D [OF assms(1)] obtain p ws where
    h: "0 < batch_size s" "validset \<noteq> []" "net s = Some p" "criterion s = MSELoss"
       "writer s = Some ws"
    by blast
  note first = validate_ok [OF h, of c print_info log_info g]
  from assms(1) first have v: "v = mean_loss c p (valid_batches c validset s)"
    and s': "s' = s\<lparr>stdout := stdout s @ (if print_info then [StartedValidation] else []),
        rng := rng s + 1,
        writer := Some (ws @ grids ''Valid'' g @
                    (if log_info
                     then [AddScalar ''Valid/loss'' (mean_loss c p (valid_batches c validset s)) g]
                     else []))\<rparr>"
    by simp_all
  from s' obtain ws' where
    h': "0 < batch_size s'" "validset \<noteq> []" "net s' = Some p" "criterion s' = MSELoss"
        "writer s' = Some ws'"
    using h by simp
  have same: "valid_batches c validset s' = valid_batches c validset s"
    using assms(2) s' by (simp add: valid_batches_def)
  note second = validate_ok [OF h', of c print_info' log_info' g', unfolded same]
  have "only_log s s'" by (subst s') simp
  moreover have "net s' = net s" "optimizer s' = optimizer s" by (simp_all add: s')
  moreover have "\<exists>s''. validate c validset print_info' log_info' g' s' = (Inr v, s'') \<and>
                net s'' = net s"
    unfolding second v using h' h by simp
  ultimately show ?thesis by simp
qed

theorem validate_twice_witness:
  "fst (validate demo [px 1 2, px 2 2, px 3 0] False True 50 args0) = Inr (19 / 4) \<and>
   fst (validate demo [px 1 2, px 2 2, px 3 0] True False 51
          (snd (validate demo [px 1 2, px 2 2, px 3 0] False True 50 args0))) = Inr (19 / 4) \<and>
   net (snd (validate demo [px 1 2, px 2 2, px 3 0] False True 50 args0)) = Some 1"
proof -
  have h: "0 < batch_size args0" "[px 1 2, px 2 2, px 3 0] \<noteq> []" "net args0 = Some 1"
    "criterion args0 = MSELoss" "writer args0 = Some []"
    by (simp_all add: args0_def)
  have b: "valid_batches demo [px 1 2, px 2 2, px 3 0] args0 = [[px 1 2, px 2 2], [px 3 0]]"
    by (simp add: valid_batches_def args0_def demo_def shuffle_by_def chunks.simps
        enumerate_eq_zip upt_rec)
  have m: "mean_loss demo 1 [[px 1 2, px 2 2], [px 3 0]] = 19 / 4"
    by (simp add: mean_loss_def batch_loss_def mse_loss_def flat_def px_def demo_def
        power2_eq_square)
  obtain s' where run1:
    "validate demo [px 1 2, px 2 2, px 3 0] False True 50 args0 = (Inr (19 / 4), s')"
    using validate_ok [OF h, of demo False True 50] by (simp add: b m)
  have r: "rnd demo (rng s') = rnd demo (rng args0)"
    by (simp add: demo_def)
  from validate_twice [OF run1 r, of True False 51] h show ?thesis
    by (auto simp: run1)
qed

lemma batch_status_quiet:
  assumes "writer s = Some ws" and "log_interval s \<noteq> 0"
    and "(int batch_idx + int (loader_len train_loader) * int epoch) mod log_interval s \<noteq> 0"
  shows "batch_status c batch_idx inputs outputs targets epoch train_loader loss validset s =
     (Inr (), s\<lparr>running_loss := running_loss s + loss, train_loss := train_loss s + loss,
               writer := Some (ws @ [AddScalar ''Train/loss'' loss
                   (int batch_idx + int (loader_len train_loader) * int epoch), Flush])\<rparr>)"
  using assms by (simp add: batch_status_def Let_def writer_call_Some)

lemma batch_status_interval:
  assumes "writer s = Some ws" and "log_interval s \<noteq> 0"
    and "(int batch_idx + int (loader_len train_loader) * int epoch) mod log_interval s = 0"
    and "0 < batch_size s" and "validset \<noteq> []" and "net s = Some p"
    and "criterion s = MSELoss" and "dataloader_size s \<noteq> 0"
  shows "batch_status c batch_idx inputs outputs targets epoch train_loader loss validset s =
     (let g = int batch_idx + int (loader_len train_loader) * int epoch;
          v = mean_loss c p (valid_batches c validset s) in
      (Inr (), s\<lparr>running_loss := 0, train_loss := train_loss s + loss,
               rng := rng s + 1,
               writer := Some (ws @ [AddScalar ''Train/loss'' loss g] @ grids ''Valid'' g @
                            [AddScalar ''Valid/loss'' v g] @ grids ''Train'' g @ [Flush]),
               stdout := stdout s @
                 [Status (int epoch) (int batch_idx) (batch_size s * int batch_idx)
                    (int (dataset_size s)) (100 * real batch_idx / real (dataloader_size s))
                    ((running_loss s + loss) / real_of_int (log_interval s)) v],
               store := store s @
                 (if float_lt loss (best s)
                  then [(run s, \<lparr>ck_run = run s, ck_model = p, ck_optimizer = optimizer s,
                                  ck_best = loss, ck_step = g\<rparr>)]
                  else []),
               best := (if float_lt loss (best s) then Fin loss else best s)\<rparr>))"
proof -
  let ?g = "int batch_idx + int (loader_len train_loader) * int epoch"
  let ?s1 = "s\<lparr>running_loss := running_loss s + loss, train_loss := train_loss s + loss,
               writer := Some (ws @ [AddScalar ''Train/loss'' loss ?g])\<rparr>"
  have h: "0 < batch_size ?s1" "validset \<noteq> []" "net ?s1 = Some p" "criterion ?s1 = MSELoss"
    "writer ?s1 = Some (ws @ [AddScalar ''Train/loss'' loss ?g])"
    using assms by simp_all
  have vb: "valid_batches c validset ?s1 = valid_batches c validset s"
    by (simp add: valid_batches_def)
  note v = validate_ok [OF h, of c False True ?g, unfolded vb]
  show ?thesis
    using assms
    by (cases "float_lt loss (best s)")
      (simp_all add: batch_status_def Let_def writer_call_Some v add_tensorboard_Some
        process_checkpoint_def print_def)
qed

text \<open>
  C3. At a step where the checkpoint policy is evaluated (the global step is a multiple
  of the log interval, and the validation before it goes through), a checkpoint is
  appended to the store exactly when the training loss of the step is strictly below the
  best recorded so far, and the best changes exactly then, to that loss.
\<close>

theorem checkpoint_written_iff_improved:
  assumes "writer s = Some ws" and "log_interval s \<noteq> 0"
    and "(int batch_idx + int (loader_len train_loader) * int epoch) mod log_interval s = 0"
    and "0 < batch_size s" and "validset \<noteq> []" and "net s = Some p"
    and "criterion s = MSELoss" and "dataloader_size s \<noteq> 0"
  shows "\<exists>s'. batch_status c batch_idx inputs outputs targets epoch train_loader loss validset s
              = (Inr (), s') \<and>
          (float_lt loss (best s) \<longrightarrow>
             store s' = store s @
               [(run s, \<lparr>ck_run = run s, ck_model = p, ck_optimizer = optimizer s,
                          ck_best = loss,
                          ck_step = int batch_idx + int (loader_len train_loader) * int epoch\<rparr>)]
             \<and> best s' = Fin loss) \<and>
          (\<not> float_lt loss (best s) \<longrightarrow> store s' = store s \<and> best s' = best s) \<and>
          (store s' \<noteq> store s \<longleftrightarrow> float_lt loss (best s)) \<and>
          (best s' \<noteq> best s \<longleftrightarrow> store s' \<noteq> store s)"
proof (cases "float_lt loss (best s)")
  case True
  then have "best s \<noteq> Fin loss" by (cases "best s") auto
  with True show ?thesis
    unfolding batch_status_interval [OF assms] by (simp add: Let_def)
next
  case False
  then show ?thesis
    unfolding batch_status_interval [OF assms] by (simp add: Let_def)
qed

theorem checkpoint_written_iff_improved_witness:
  "writer args1 = Some [] \<and> log_interval args1 \<noteq> 0 \<and>
   (int 2 + int (loader_len loader0) * int 1) mod log_interval args1 = 0 \<and>
   0 < batch_size args1 \<and> [px 1 1] \<noteq> [] \<and> net args1 = Some 1 \<and>
   criterion args1 = MSELoss \<and> dataloader_size args1 \<noteq> 0 \<and>
   map (ck_best \<circ> snd)
     (store (snd (batch_status demo 2 [] [] [] 1 loader0 (1 / 2) [px 1 1] args1))) = [1 / 2] \<and>
   best (snd (batch_status demo 2 [] [] [] 1 loader0 (1 / 2) [px 1 1] args1)) = Fin (1 / 2) \<and>
   store (snd (batch_status demo 2 [] [] [] 1 loader0 (3 / 4) [px 1 1]
                 (args1\<lparr>best := Fin (1 / 2)\<rparr>))) = [] \<and>
   best (snd (batch_status demo 2 [] [] [] 1 loader0 (3 / 4) [px 1 1]
                 (args1\<lparr>best := Fin (1 / 2)\<rparr>))) = Fin (1 / 2)"
proof -
  have h: "writer args1 = Some []" "log_interval args1 \<noteq> 0"
    "(int 2 + int (loader_len loader0) * int 1) mod log_interval args1 = 0"
    "0 < batch_size args1" "[px 1 1] \<noteq> []" "net args1 = Some 1"
    "criterion args1 = MSELoss" "dataloader_size args1 \<noteq> 0"
    by (simp_all add: args1_def args0_def loader0_def loader_len_def)
  let ?s = "args1\<lparr>best := Fin (1 / 2)\<rparr>"
  have h': "writer ?s = Some []" "log_interval ?s \<noteq> 0"
    "(int 2 + int (loader_len loader0) * int 1) mod log_interval ?s = 0"
    "0 < batch_size ?s" "[px 1 1] \<noteq> []" "net ?s = Some 1"
    "criterion ?s = MSELoss" "dataloader_size ?s \<noteq> 0"
    using h by simp_all
  from checkpoint_written_iff_improved [OF h, of demo "[]" "[]" "[]" "1 / 2"]
  have a: "map (ck_best \<circ> snd)
     (store (snd (batch_status demo 2 [] [] [] 1 loader0 (1 / 2) [px 1 1] args1))) = [1 / 2]"
    "best (snd (batch_status demo 2 [] [] [] 1 loader0 (1 / 2) [px 1 1] args1)) = Fin (1 / 2)"
    by (auto simp: args1_def args0_def)
  from checkpoint_written_iff_improved [OF h', of demo "[]" "[]" "[]" "3 / 4"]
  have b: "store (snd (batch_status demo 2 [] [] [] 1 loader0 (3 / 4) [px 1 1] ?s)) = []"
    "best (snd (batch_status demo 2 [] [] [] 1 loader0 (3 / 4) [px 1 1] ?s)) = Fin (1 / 2)"
    by (auto simp: args1_def args0_def)
  from h a b show ?thesis by simp
qed

text \<open>
  The scenario of the specification for the policy itself: starting from a best of
  infinity, the losses 0.50, 0.40, 0.45 and 0.30 write checkpoints for 0.50, 0.40 and
  0.30 and leave 0.30 as the best.
\<close>

lemma checkpoint_policy_scenario:
  "snd (seq (process_checkpoint (1 / 2) 50 args1) (\<lambda>_ s.
        seq (process_checkpoint (2 / 5) 100 s) (\<lambda>_ s.
        seq (process_checkpoint (9 / 20) 150 s) (\<lambda>_ s.
        process_checkpoint (3 / 10) 200 s)))) =
   args1\<lparr>best := Fin (3 / 10),
         store := map (\<lambda>(l, g). (''demo'', \<lparr>ck_run = ''demo'', ck_model = 1,
                                     ck_optimizer = Adam (1 / 10000) (), ck_best = l,
                                     ck_step = g\<rparr>))
                    [(1 / 2, 50), (2 / 5, 100), (3 / 10, 200)]\<rparr>"
  by (simp add: process_checkpoint_def args1_def args0_def)

text \<open>
  C4. In a state as train hands it to \<open>batch_status\<close> (writer, network and loss set, a
  non-zero log interval, a positive batch size, a non-empty validation partition), the
  step returns, and
  \<^item> when the global step is a multiple of the log interval, the writer receives, after
    the training loss, the Valid grids and the validation loss of a full validation pass,
    then the Train grids; the checkpoint policy is applied to the training loss; the
    status line is printed; and the running loss is zero afterwards;
  \<^item> at every other step the writer receives the training loss and the flush only,
    nothing is printed, no random order is drawn, best and the store are untouched and
    the running loss keeps accumulating.
\<close>

theorem interval_actions_iff_multiple:
  assumes "writer s = Some ws" and "log_interval s \<noteq> 0"
    and "0 < batch_size s" and "validset \<noteq> []" and "net s = Some p"
    and "criterion s = MSELoss" and "dataloader_size s \<noteq> 0"
    and "g = int batch_idx + int (loader_len train_loader) * int epoch"
  shows "\<exists>s'. batch_status c batch_idx inputs outputs targets epoch train_loader loss validset s
              = (Inr (), s') \<and>
          (if g mod log_interval s = 0
           then writer s' =
                  Some (ws @ [AddScalar ''Train/loss'' loss g] @ grids ''Valid'' g @
                        [AddScalar ''Valid/loss'' (mean_loss c p (valid_batches c validset s)) g] @
                        grids ''Train'' g @ [Flush]) \<and>
                rng s' = rng s + 1 \<and>
                best s' = best (snd (process_checkpoint loss g s)) \<and>
                store s' = store (snd (process_checkpoint loss g s)) \<and>
                stdout s' = stdout s @
                  [Status (int epoch) (int batch_idx) (batch_size s * int batch_idx)
                     (int (dataset_size s)) (100 * real batch_idx / real (dataloader_size s))
                     ((running_loss s + loss) / real_of_int (log_interval s))
                     (mean_loss c p (valid_batches c validset s))] \<and>
                running_loss s' = 0
           else writer s' = Some (ws @ [AddScalar ''Train/loss'' loss g, Flush]) \<and>
                rng s' = rng s \<and> best s' = best s \<and> store s' = store s \<and>
                stdout s' = stdout s \<and>
                running_loss s' = running_loss s + loss)"
proof (cases "g mod log_interval s = 0")
  case True
  then have m: "(int batch_idx + int (loader_len train_loader) * int epoch) mod log_interval s = 0"
    using assms(8) by simp
  show ?thesis
    unfolding batch_status_interval [OF assms(1,2) m assms(3-7)]
    using True assms(5,8) by (simp add: Let_def process_checkpoint_def)
next
  case False
  then have m: "(int batch_idx + int (loader_len train_loader) * int epoch) mod log_interval s \<noteq> 0"
    using assms(8) by simp
  show ?thesis
    unfolding batch_status_quiet [OF assms(1,2) m]
    using False assms(8) by simp
qed

theorem interval_actions_iff_multiple_witness:
  "writer args1 = Some [] \<and> log_interval args1 \<noteq> 0 \<and> 0 < batch_size args1 \<and>
   [px 1 1] \<noteq> [] \<and> net args1 = Some 1 \<and> criterion args1 = MSELoss \<and>
   dataloader_size args1 \<noteq> 0 \<and>
   writer (snd (batch_status demo 2 [] [] [] 1 loader0 (1 / 2) [px 1 1] args1)) =
     Some ([AddScalar ''Train/loss'' (1 / 2) 4] @ grids ''Valid'' 4 @
           [AddScalar ''Valid/loss'' 0 4] @ grids ''Train'' 4 @ [Flush]) \<and>
   running_loss (snd (batch_status demo 2 [] [] [] 1 loader0 (1 / 2) [px 1 1] args1)) = 0 \<and>
   writer (snd (batch_status demo 1 [] [] [] 1 loader0 (1 / 2) [px 1 1] args1)) =
     Some [AddScalar ''Train/loss'' (1 / 2) 3, Flush] \<and>
   running_loss (snd (batch_status demo 1 [] [] [] 1 loader0 (1 / 2) [px 1 1] args1)) = 3 / 4 \<and>
   stdout (snd (batch_status demo 1 [] [] [] 1 loader0 (1 / 2) [px 1 1] args1)) = []"
proof -
  have h: "writer args1 = Some []" "log_interval args1 \<noteq> 0" "0 < batch_size args1"
    "[px 1 1] \<noteq> []" "net args1 = Some 1" "criterion args1 = MSELoss"
    "dataloader_size args1 \<noteq> 0"
    by (simp_all add: args1_def args0_def)
  have g4: "(4::int) = int 2 + int (loader_len loader0) * int 1"
    and g3: "(3::int) = int 1 + int (loader_len loader0) * int 1"
    by (simp_all add: loader0_def loader_len_def)
  have b: "valid_batches demo [px 1 1] args1 = [[px 1 1]]"
    by (simp add: valid_batches_def args1_def args0_def demo_def shuffle_by_def chunks.simps
        enumerate_eq_zip)
  have m: "mean_loss demo 1 [[px 1 1]] = 0"
    by (simp add: mean_loss_def batch_loss_def mse_loss_def flat_def px_def demo_def)
  have l: "log_interval args1 = 2" "running_loss args1 = 1 / 4" "stdout args1 = []"
    by (simp_all add: args1_def args0_def)
  from interval_actions_iff_multiple [OF h g4, of demo "[]" "[]" "[]" "1 / 2"]
  have a: "writer (snd (batch_status demo 2 [] [] [] 1 loader0 (1 / 2) [px 1 1] args1)) =
     Some ([AddScalar ''Train/loss'' (1 / 2) 4] @ grids ''Valid'' 4 @
           [AddScalar ''Valid/loss'' 0 4] @ grids ''Train'' 4 @ [Flush])"
    "running_loss (snd (batch_status demo 2 [] [] [] 1 loader0 (1 / 2) [px 1 1] args1)) = 0"
    by (auto simp: b m l)
  from interval_actions_iff_multiple [OF h g3, of demo "[]" "[]" "[]" "1 / 2"]
  have c: "writer (snd (batch_status demo 1 [] [] [] 1 loader0 (1 / 2) [px 1 1] args1)) =
     Some [AddScalar ''Train/loss'' (1 / 2) 3, Flush]"
    "running_loss (snd (batch_status demo 1 [] [] [] 1 loader0 (1 / 2) [px 1 1] args1)) = 3 / 4"
    "stdout (snd (batch_status demo 1 [] [] [] 1 loader0 (1 / 2) [px 1 1] args1)) = []"
    by (auto simp: l)
  from h a c show ?thesis by simp
qed

lemma logged_steps_simps [simp]:
  "logged_steps [] = []"
  "logged_steps (w # ws) = train_step w @ logged_steps ws"
  "logged_steps (ws @ ws') = logged_steps ws @ logged_steps ws'"
  "logged_steps (grids name g) = []"
  by (simp_all add: logged_steps_def grids_def)

lemma seq_InrE:
  assumes "seq m f = (Inr b, s')"
  obtains a s1 where "m = (Inr a, s1)" and "f a s1 = (Inr b, s')"
  using assms by (auto simp: seq_def split: prod.splits sum.splits)

lemma batch_status_Inr_D:
  assumes "batch_status c batch_idx inputs outputs targets epoch train_loader loss validset s
             = (Inr (), s')"
  shows "(\<exists>ws. writer s = Some ws) \<and> log_interval s \<noteq> 0 \<and>
         ((int batch_idx + int (loader_len train_loader) * int epoch) mod log_interval s = 0 \<longrightarrow>
            0 < batch_size s \<and> validset \<noteq> [] \<and> (\<exists>p. net s = Some p) \<and>
            criterion s = MSELoss \<and> dataloader_size s \<noteq> 0)"
proof -
  let ?g = "int batch_idx + int (loader_len train_loader) * int epoch"
  obtain ws where ws: "writer s = Some ws"
    using assms by (cases "writer s") (auto simp: batch_status_def Let_def writer_call_None)
  let ?s1 = "s\<lparr>running_loss := running_loss s + loss, train_loss := train_loss s + loss,
               writer := Some (ws @ [AddScalar ''Train/loss'' loss ?g])\<rparr>"
  have l: "log_interval s \<noteq> 0"
    using assms ws by (cases "log_interval s = 0")
      (auto simp: batch_status_def Let_def writer_call_Some)
  have "0 < batch_size s \<and> validset \<noteq> [] \<and> (\<exists>p. net s = Some p) \<and>
            criterion s = MSELoss \<and> dataloader_size s \<noteq> 0" if m: "?g mod log_interval s = 0"
  proof -
    from assms ws l m have
      "seq (seq (validate c validset False True ?g ?s1) (\<lambda>vloss s.
                seq (add_tensorboard inputs targets outputs ?g ''Train'' s) (\<lambda>_ s.
                seq (process_checkpoint loss ?g s) (\<lambda>_ s.
                if dataloader_size s = 0 then (Inl ZeroDivisionError, s)
                else
                  (let s = print (Status (int epoch) (int batch_idx)
                                    (batch_size s * int batch_idx) (int (dataset_size s))
                                    (100 * real batch_idx / real (dataloader_size s))
                                    (running_loss s / real_of_int (log_interval s)) vloss) s
                   in (Inr (), s\<lparr>running_loss := 0\<rparr>))))))
           (\<lambda>_ s. writer_call Flush s) = (Inr (), s')"
      by (simp add: batch_status_def Let_def writer_call_Some)
    then obtain v s2 where v: "validate c validset False True ?g ?s1 = (Inr v, s2)"
      by (elim seq_InrE) auto
    from validate_Inr_D [OF v] obtain p where
      h: "0 < batch_size s" "validset \<noteq> []" "net s = Some p" "criterion s = MSELoss"
      by auto
    have "dataloader_size s \<noteq> 0"
    proof
      assume z: "dataloader_size s = 0"
      have h1: "0 < batch_size ?s1" "validset \<noteq> []" "net ?s1 = Some p" "criterion ?s1 = MSELoss"
        "writer ?s1 = Some (ws @ [AddScalar ''Train/loss'' loss ?g])"
        using h by simp_all
      note vo = validate_ok [OF h1, of c False True ?g]
      from ws l m h z have "fst (batch_status c batch_idx inputs outputs targets epoch
          train_loader loss validset s) = Inl ZeroDivisionError"
        by (cases "float_lt loss (best s)")
          (simp_all add: batch_status_def Let_def writer_call_Some vo add_tensorboard_Some
            process_checkpoint_def)
      with assms show False by simp
    qed
    with h show ?thesis by blast
  qed
  with ws l show ?thesis by blast
qed

lemma batch_status_steps:
  assumes "batch_status c batch_idx inputs outputs targets epoch train_loader loss validset s
             = (Inr (), s')"
    and "writer s = Some ws"
  shows "\<exists>ext. writer s' = Some (ws @ ext) \<and>
           logged_steps ext = [int batch_idx + int (loader_len train_loader) * int epoch]"
proof -
  let ?g = "int batch_idx + int (loader_len train_loader) * int epoch"
  note d = batch_status_Inr_D [OF assms(1)]
  show ?thesis
  proof (cases "?g mod log_interval s = 0")
    case True
    with d obtain p where h: "log_interval s \<noteq> 0" "0 < batch_size s" "validset \<noteq> []"
      "net s = Some p" "criterion s = MSELoss" "dataloader_size s \<noteq> 0"
      by blast
    from assms(1) show ?thesis
      unfolding batch_status_interval [OF assms(2) h(1) True h(2-6)]
      by (auto simp: Let_def)
  next
    case False
    from d have l: "log_interval s \<noteq> 0" by blast
    from assms(1) show ?thesis
      unfolding batch_status_quiet [OF assms(2) l False]
      by auto
  qed
qed

lemma train_batches_steps:
  assumes "train_batches c bs i e ld vs s = (Inr (), s')" and "writer s = Some ws"
  shows "\<exists>ext. writer s' = Some (ws @ ext) \<and>
           logged_steps ext = map (\<lambda>j. int j + int (loader_len ld) * int e) [i..<i + length bs]"
  using assms
proof (induction bs arbitrary: i s ws)
  case Nil
  then show ?case by simp
next
  case (Cons b bs)
  from Cons.prems have "\<exists>inputs outputs targets loss opt p' s2.
      batch_status c i inputs outputs targets e ld loss vs (s\<lparr>optimizer := opt, net := Some p'\<rparr>)
        = (Inr (), s2) \<and>
      train_batches c bs (Suc i) e ld vs s2 = (Inr (), s')"
    by (auto simp: Let_def split: optimizer.splits option.splits sum.splits prod.splits
        elim!: seq_InrE) blast+
  then obtain inputs outputs targets loss opt p' s2 where
    bs: "batch_status c i inputs outputs targets e ld loss vs (s\<lparr>optimizer := opt, net := Some p'\<rparr>)
           = (Inr (), s2)"
    and rest: "train_batches c bs (Suc i) e ld vs s2 = (Inr (), s')"
    by blast
  have w1: "writer (s\<lparr>optimizer := opt, net := Some p'\<rparr>) = Some ws"
    using Cons.prems(2) by simp
  from batch_status_steps [OF bs w1] obtain ext1 where
    e1: "writer s2 = Some (ws @ ext1)" "logged_steps ext1 = [int i + int (loader_len ld) * int e]"
    by blast
  from Cons.IH [OF rest e1(1)] obtain ext2 where
    e2: "writer s' = Some ((ws @ ext1) @ ext2)"
      "logged_steps ext2 = map (\<lambda>j. int j + int (loader_len ld) * int e) [Suc i..<Suc i + length bs]"
    by blast
  have "[i..<i + length (b # bs)] = i # [Suc i..<i + length (b # bs)]"
    by (rule upt_conv_Cons) simp
  then have u: "[i..<i + length (b # bs)] = i # [Suc i..<Suc i + length bs]"
    by (simp del: upt_Suc)
  have "writer s' = Some (ws @ (ext1 @ ext2))" using e2(1) by simp
  moreover have "logged_steps (ext1 @ ext2) =
      map (\<lambda>j. int j + int (loader_len ld) * int e) [i..<i + length (b # bs)]"
    unfolding u using e1(2) e2(2) by simp
  ultimately show ?case by blast
qed

lemma iter_loader_length: "length (fst (iter_loader c l s)) = loader_len l"
proof (cases "ld_batch_size l = 0")
  case True
  then show ?thesis by (simp add: iter_loader_def loader_len_def chunks.simps)
next
  case False
  then show ?thesis by (simp add: iter_loader_def loader_len_def length_chunks)
qed

lemma iter_loader_writer [simp]: "writer (snd (iter_loader c l s)) = writer s"
  by (simp add: iter_loader_def)

lemma train_epochs_steps:
  assumes "train_epochs c es ld vs s = (Inr (), s')" and "writer s = Some ws"
  shows "\<exists>ext. writer s' = Some (ws @ ext) \<and>
           logged_steps ext =
             concat (map (\<lambda>e. map (\<lambda>j. int j + int (loader_len ld) * int e)
                                 [1..<Suc (loader_len ld)]) es)"
  using assms
proof (induction es arbitrary: s ws)
  case Nil
  then show ?case by simp
next
  case (Cons e es)
  let ?s0 = "s\<lparr>train_loss := 0, train_acc := 0, running_loss := 0\<rparr>"
  obtain batches s1 where it: "iter_loader c ld ?s0 = (batches, s1)"
    by (cases "iter_loader c ld ?s0")
  have len: "length batches = loader_len ld"
    using iter_loader_length [of c ld ?s0] it by simp
  have w1: "writer s1 = Some ws"
    using iter_loader_writer [of c ld ?s0] it Cons.prems(2) by simp
  from Cons.prems(1) it obtain s2 where
    tb: "train_batches c batches 1 e ld vs s1 = (Inr (), s2)"
    and rest: "train_epochs c es ld vs
                 (print (EpochAverage e (train_loss s2 / real (loader_len ld))) s2) = (Inr (), s')"
    by (auto simp: Let_def elim!: seq_InrE split: if_splits)
  from train_batches_steps [OF tb w1] obtain ext1 where
    e1: "writer s2 = Some (ws @ ext1)"
      "logged_steps ext1 = map (\<lambda>j. int j + int (loader_len ld) * int e) [1..<Suc (loader_len ld)]"
    by (auto simp: len)
  have w2: "writer (print (EpochAverage e (train_loss s2 / real (loader_len ld))) s2)
      = Some (ws @ ext1)"
    using e1(1) by (simp add: print_def)
  from Cons.IH [OF rest w2] obtain ext2 where
    e2: "writer s' = Some ((ws @ ext1) @ ext2)"
      "logged_steps ext2 =
         concat (map (\<lambda>e. map (\<lambda>j. int j + int (loader_len ld) * int e)
                             [1..<Suc (loader_len ld)]) es)"
    by blast
  have "writer s' = Some (ws @ (ext1 @ ext2))" using e2(1) by simp
  moreover have "logged_steps (ext1 @ ext2) =
      concat (map (\<lambda>e. map (\<lambda>j. int j + int (loader_len ld) * int e)
                          [1..<Suc (loader_len ld)]) (e # es))"
    using e1(2) e2(2) by simp
  ultimately show ?case by blast
qed

lemma steps_of_run:
  "concat (map (\<lambda>e. map (\<lambda>j. int j + int n * int e) [1..<Suc n]) [0..<E])
     = map int [1..<Suc (n * E)]"
proof (induction E)
  case 0
  then show ?case by simp
next
  case (Suc E)
  have "map (\<lambda>j. int j + int n * int E) [1..<Suc n] = map int [1 + n * E..<Suc n + n * E]"
    by (rule nth_equalityI) (auto simp: algebra_simps simp del: upt_Suc)
  moreover have "[1..<Suc (n * Suc E)] = [1..<Suc (n * E)] @ [1 + n * E..<Suc n + n * E]"
    using upt_add_eq_append [of 1 "Suc (n * E)" n] by (simp add: add.commute)
  ultimately show ?case using Suc by simp
qed

lemma train_setup_D:
  assumes "train_setup c trainset s = (Inr ld, s1)"
  shows "DataLoader trainset (batch_size s) True = Inr ld \<and> best s1 = PInf \<and>
         epochs s1 = epochs s \<and>
         (\<forall>ws. writer s = Some ws \<longrightarrow>
            (\<exists>pre. writer s1 = Some (ws @ pre) \<and> logged_steps pre = []))"
  using assms
  by (auto simp: train_setup_def Let_def iter_loader_def restore_checkpoint_def print_def
      writer_call_def
      split: sum.splits list.splits if_splits option.splits prod.splits elim!: seq_InrE)

lemma DataLoader_len:
  "DataLoader ds b sh = Inr ld \<Longrightarrow> loader_len ld = (length ds + nat b - 1) div nat b"
  by (auto simp: DataLoader_def loader_len_def split: if_splits)

lemma run7: "fst (train demo trainset7 [] args7) = Inr ()"
  by (simp add: train_def train_setup_def DataLoader_def iter_loader_def shuffle_by_def
      chunks.simps enumerate_eq_zip upt_rec args7_def args0_def trainset7_def demo_def
      Let_def restore_checkpoint_def print_def loader_len_def batch_status_def writer_call_def
      apply_criterion_def)

lemma train_D:
  assumes "train c trainset validset s = (Inr (), s')"
  obtains ld s1 s2 where "train_setup c trainset s = (Inr ld, s1)"
    and "train_epochs c [0..<nat (epochs s1)] ld validset s1 = (Inr (), s2)"
    and "s' = print FinishedTraining s2"
  using assms by (auto simp: train_def elim!: seq_InrE)

lemma train_steps:
  assumes "train c trainset validset s = (Inr (), s')" and "writer s = Some ws"
    and "n = (length trainset + nat (batch_size s) - 1) div nat (batch_size s)"
  shows "\<exists>ext. writer s' = Some (ws @ ext) \<and>
           logged_steps ext =
             concat (map (\<lambda>epoch. map (\<lambda>batch_idx. int batch_idx + int n * int epoch)
                                     [1..<Suc n]) [0..<nat (epochs s)])"
proof -
  from assms(1) obtain ld s1 s2 where
    su: "train_setup c trainset s = (Inr ld, s1)"
    and loop: "train_epochs c [0..<nat (epochs s1)] ld validset s1 = (Inr (), s2)"
    and fin: "s' = print FinishedTraining s2"
    by (rule train_D)
  from train_setup_D [OF su] assms(2) obtain pre where
    d: "DataLoader trainset (batch_size s) True = Inr ld" "epochs s1 = epochs s"
       "writer s1 = Some (ws @ pre)" "logged_steps pre = []"
    by blast
  have n: "loader_len ld = n"
    using DataLoader_len [OF d(1)] assms(3) by simp
  from train_epochs_steps [OF loop d(3)] obtain ext where
    e: "writer s2 = Some ((ws @ pre) @ ext)"
       "logged_steps ext =
          concat (map (\<lambda>e. map (\<lambda>j. int j + int (loader_len ld) * int e)
                              [1..<Suc (loader_len ld)]) [0..<nat (epochs s1)])"
    by blast
  have "writer s' = Some (ws @ (pre @ ext))"
    using e(1) fin by (simp add: print_def)
  moreover have "logged_steps (pre @ ext) =
      concat (map (\<lambda>epoch. map (\<lambda>batch_idx. int batch_idx + int n * int epoch)
                              [1..<Suc n]) [0..<nat (epochs s)])"
    using e(2) d(2,4) n by simp
  ultimately show ?thesis by blast
qed

text \<open>
  C2. In a run of train that completes, the training loss is logged once per batch, under
  the global step batch index + batches per epoch * epoch index, where the batch index
  counts from 1 (the loop enumerates the loader from 1) and batches per epoch is the
  number of samples divided by the batch size, rounded up. Over the run these steps are
  1, 2, 3, ..., so they increase strictly.
\<close>

theorem global_step_one_indexed:
  assumes "train c trainset validset s = (Inr (), s')" and "writer s = Some ws"
    and "n = (length trainset + nat (batch_size s) - 1) div nat (batch_size s)"
  shows "\<exists>ext. writer s' = Some (ws @ ext) \<and>
           logged_steps ext =
             concat (map (\<lambda>epoch. map (\<lambda>batch_idx. int batch_idx + int n * int epoch)
                                     [1..<Suc n]) [0..<nat (epochs s)]) \<and>
           logged_steps ext = map int [1..<Suc (n * nat (epochs s))] \<and>
           sorted_wrt (<) (logged_steps ext)"
proof -
  from train_steps [OF assms] obtain ext where
    e: "writer s' = Some (ws @ ext)"
       "logged_steps ext =
             concat (map (\<lambda>epoch. map (\<lambda>batch_idx. int batch_idx + int n * int epoch)
                                     [1..<Suc n]) [0..<nat (epochs s)])"
    by blast
  have l: "logged_steps ext = map int [1..<Suc (n * nat (epochs s))]"
    unfolding e(2) by (rule steps_of_run)
  have "sorted_wrt (<) (map int [1..<Suc (n * nat (epochs s))])"
    by (simp add: sorted_wrt_map del: upt_Suc)
  with e l show ?thesis by auto
qed

theorem global_step_one_indexed_witness:
  "fst (train demo trainset7 [] args7) = Inr () \<and> writer args7 = Some [] \<and>
   (7::nat) = (length trainset7 + nat (batch_size args7) - 1) div nat (batch_size args7) \<and>
   map_option logged_steps (writer (snd (train demo trainset7 [] args7))) =
     Some [1, 2, 3, 4, 5, 6, 7]"
proof -
  have w: "writer args7 = Some []"
    by (simp add: args7_def args0_def)
  have n: "(7::nat) = (length trainset7 + nat (batch_size args7) - 1) div nat (batch_size args7)"
    by (simp add: args7_def args0_def trainset7_def)
  have e: "nat (epochs args7) = 1"
    by (simp add: args7_def args0_def)
  obtain s' where r: "train demo trainset7 [] args7 = (Inr (), s')"
    using run7 by (cases "train demo trainset7 [] args7") auto
  from global_step_one_indexed [OF r w n] obtain ext where
    "writer s' = Some ext" "logged_steps ext = map int [1..<Suc (7 * nat (epochs args7))]"
    by auto
  then have "map_option logged_steps (writer s') = Some [1, 2, 3, 4, 5, 6, 7]"
    by (simp add: e upt_rec)
  with r w n show ?thesis by simp
qed

text \<open>
  With seven batches in the epoch, the last batch of epoch 0 is logged under global step
  7: the steps of the epoch are 1 to 7, not the 0 to 6 of a batch index counted from 0.
\<close>

theorem global_step_zero_indexed_counterexample:
  "fst (train demo trainset7 [] args7) = Inr () \<and>
   map_option (last \<circ> logged_steps) (writer (snd (train demo trainset7 [] args7))) = Some 7 \<and>
   map_option logged_steps (writer (snd (train demo trainset7 [] args7)))
     \<noteq> Some (map (\<lambda>batch_idx. batch_idx + 0 * 7) [0, 1, 2, 3, 4, 5, 6])"
proof -
  have w: "writer args7 = Some []"
    by (simp add: args7_def args0_def)
  have n: "(7::nat) = (length trainset7 + nat (batch_size args7) - 1) div nat (batch_size args7)"
    by (simp add: args7_def args0_def trainset7_def)
  have e: "nat (epochs args7) = 1"
    by (simp add: args7_def args0_def)
  obtain s' where r: "train demo trainset7 [] args7 = (Inr (), s')"
    using run7 by (cases "train demo trainset7 [] args7") auto
  from train_steps [OF r w n] obtain ext where
    "writer s' = Some ext"
    "logged_steps ext =
       concat (map (\<lambda>epoch. map (\<lambda>batch_idx. int batch_idx + int 7 * int epoch)
                               [1..<Suc 7]) [0..<nat (epochs args7)])"
    by auto
  then have "map_option logged_steps (writer s') = Some [1, 2, 3, 4, 5, 6, 7]"
    by (simp add: e upt_rec)
  with r show ?thesis by auto
qed

lemma train_setup_restored:
  assumes "train_setup c trainset s = (Inr ld, s1)" and "checkpoint s \<noteq> ''none''"
  shows "\<exists>k. map_of (rev (store s)) (checkpoint s) = Some k \<and> net s1 = Some (ck_model k) \<and>
             optimizer s1 = ck_optimizer k \<and> step s1 = ck_step k"
  using assms
  by (auto simp: train_setup_def Let_def iter_loader_def restore_checkpoint_def print_def
      writer_call_def
      split: sum.splits list.splits if_splits option.splits prod.splits elim!: seq_InrE)

lemma train_setup_two_batches:
  assumes "train_setup c trainset s = (Inr ld, s1)"
  shows "2 \<le> loader_len ld"
proof -
  from train_setup_D [OF assms] have d: "DataLoader trainset (batch_size s) True = Inr ld"
    by blast
  let ?s0 = "s\<lparr>dataset_size := length (ld_dataset ld), dataloader_size := loader_len ld\<rparr>"
  have "\<not> length (fst (iter_loader c ld ?s0)) < 2"
  proof
    assume "length (fst (iter_loader c ld ?s0)) < 2"
    then have "fst (iter_loader c ld ?s0) = [] \<or> (\<exists>x. fst (iter_loader c ld ?s0) = [x])"
      by (cases "fst (iter_loader c ld ?s0)") (auto simp: less_Suc_eq_0_disj numeral_2_eq_2)
    then have "fst (train_setup c trainset s) = Inl StopIteration"
      using d by (auto simp: train_setup_def Let_def split: prod.splits)
    with assms show False by simp
  qed
  then show ?thesis by (simp add: iter_loader_length)
qed

lemma runR: "fst (train demo trainset7 [] argsR) = Inr ()"
  by (simp add: train_def train_setup_def DataLoader_def iter_loader_def shuffle_by_def
      chunks.simps enumerate_eq_zip upt_rec argsR_def args7_def args0_def trainset7_def demo_def
      Let_def restore_checkpoint_def print_def loader_len_def batch_status_def writer_call_def
      apply_criterion_def)

lemma setupR:
  "best (snd (train_setup demo trainset7 argsR)) = PInf \<and>
   step (snd (train_setup demo trainset7 argsR)) = 50"
  by (simp add: train_setup_def DataLoader_def iter_loader_def shuffle_by_def
      chunks.simps enumerate_eq_zip upt_rec argsR_def args7_def args0_def trainset7_def demo_def
      Let_def restore_checkpoint_def print_def loader_len_def writer_call_def)

text \<open>
  C1. In a run of train that restores a checkpoint and completes, the restore puts the
  checkpoint's model, optimizer and step into the namespace, but the line after it sets
  best to infinity, so the loop starts from a best of infinity whatever was saved; and the
  loop computes its global step from the epoch and batch index alone, so the first step
  it logs is 1.
\<close>

theorem restored_progress_not_resumed:
  assumes "train c trainset validset s = (Inr (), s')" and "writer s = Some ws"
    and "0 < epochs s" and "checkpoint s \<noteq> ''none''"
  shows "\<exists>ld s1 k ext. train_setup c trainset s = (Inr ld, s1) \<and>
           map_of (rev (store s)) (checkpoint s) = Some k \<and>
           net s1 = Some (ck_model k) \<and> optimizer s1 = ck_optimizer k \<and>
           step s1 = ck_step k \<and> best s1 = PInf \<and>
           writer s' = Some (ws @ ext) \<and> hd (logged_steps ext) = 1"
proof -
  from assms(1) obtain ld s1 s2 where
    su: "train_setup c trainset s = (Inr ld, s1)"
    and "train_epochs c [0..<nat (epochs s1)] ld validset s1 = (Inr (), s2)"
    by (rule train_D)
  from train_setup_restored [OF su assms(4)] obtain k where
    k: "map_of (rev (store s)) (checkpoint s) = Some k" "net s1 = Some (ck_model k)"
       "optimizer s1 = ck_optimizer k" "step s1 = ck_step k"
    by blast
  from train_setup_D [OF su] have
    d: "DataLoader trainset (batch_size s) True = Inr ld" "best s1 = PInf"
    by blast+
  let ?n = "(length trainset + nat (batch_size s) - 1) div nat (batch_size s)"
  have n: "loader_len ld = ?n"
    by (rule DataLoader_len [OF d(1)])
  from train_steps [OF assms(1,2) refl] obtain ext where
    e: "writer s' = Some (ws @ ext)"
       "logged_steps ext =
          concat (map (\<lambda>epoch. map (\<lambda>batch_idx. int batch_idx + int ?n * int epoch)
                                  [1..<Suc ?n]) [0..<nat (epochs s)])"
    by blast
  have l: "logged_steps ext = map int [1..<Suc (?n * nat (epochs s))]"
    unfolding e(2) by (rule steps_of_run)
  have "0 < ?n * nat (epochs s)"
    using train_setup_two_batches [OF su] n assms(3) by simp
  then have "[1..<Suc (?n * nat (epochs s))] = 1 # [2..<Suc (?n * nat (epochs s))]"
    by (simp add: upt_conv_Cons numeral_2_eq_2 del: upt_Suc)
  with l have "hd (logged_steps ext) = 1" by simp
  with su k d(2) e(1) show ?thesis by blast
qed

theorem restored_progress_not_resumed_witness:
  "fst (train demo trainset7 [] argsR) = Inr () \<and> writer argsR = Some [] \<and>
   0 < epochs argsR \<and> checkpoint argsR \<noteq> ''none'' \<and>
   best (snd (train_setup demo trainset7 argsR)) = PInf \<and>
   step (snd (train_setup demo trainset7 argsR)) = 50 \<and>
   map_option (hd \<circ> logged_steps) (writer (snd (train demo trainset7 [] argsR))) = Some 1"
proof -
  have h: "writer argsR = Some []" "0 < epochs argsR" "checkpoint argsR \<noteq> ''none''"
    by (simp_all add: argsR_def args7_def args0_def)
  obtain s' where r: "train demo trainset7 [] argsR = (Inr (), s')"
    using runR by (cases "train demo trainset7 [] argsR") auto
  from restored_progress_not_resumed [OF r h] obtain ext where
    "writer s' = Some ext" "hd (logged_steps ext) = 1"
    by auto
  then have "map_option (hd \<circ> logged_steps) (writer s') = Some 1"
    by simp
  with r h setupR show ?thesis by simp
qed

text \<open>
  Restoring a checkpoint saved with best loss 0.3 at step 50: the restore itself yields
  these values, but the training loop starts with best at infinity and logs its first
  step as 1.
\<close>

theorem restored_best_and_step_counterexample:
  "best (snd (restore_checkpoint argsR)) = Fin (3 / 10) \<and>
   step (snd (restore_checkpoint argsR)) = 50 \<and>
   fst (train demo trainset7 [] argsR) = Inr () \<and>
   best (snd (train_setup demo trainset7 argsR)) \<noteq> Fin (3 / 10) \<and>
   map_option (hd \<circ> logged_steps) (writer (snd (train demo trainset7 [] argsR))) \<noteq> Some 51"
proof -
  have rs: "best (snd (restore_checkpoint argsR)) = Fin (3 / 10)"
    "step (snd (restore_checkpoint argsR)) = 50"
    by (simp_all add: restore_checkpoint_def argsR_def args7_def args0_def)
  have w: "writer argsR = Some []"
    by (simp add: argsR_def args7_def args0_def)
  have e: "nat (epochs argsR) = 1" "nat (batch_size argsR) = 1"
    by (simp_all add: argsR_def args7_def args0_def)
  obtain s' where r: "train demo trainset7 [] argsR = (Inr (), s')"
    using runR by (cases "train demo trainset7 [] argsR") auto
  from train_steps [OF r w refl] obtain ext where
    "writer s' = Some ext"
    "logged_steps ext = [1, 2, 3, 4, 5, 6, 7]"
    by (auto simp: e trainset7_def upt_rec)
  then have "map_option (hd \<circ> logged_steps) (writer s') = Some 1"
    by simp
  with r rs setupR show ?thesis by auto
qed

lemma predict_loop_ok:
  assumes "net s = Some p" and "criterion s = MSELoss"
    and "length (take (Suc (10 - i)) bs) \<le> length (stdin s)"
  shows "predict_loop c bs i acc s =
     (Inr (), s\<lparr>stdout := stdout s @ concat (map (predict_lines c p) (take (Suc (10 - i)) bs)),
               stdin := drop (length (take (Suc (10 - i)) bs)) (stdin s)\<rparr>)"
  using assms
proof (induction bs arbitrary: i acc s)
  case Nil
  then show ?case by simp
next
  case (Cons b bs)
  from Cons.prems(3) obtain l ls where st: "stdin s = l # ls"
    by (cases "stdin s") auto
  let ?s1 = "s\<lparr>stdout := stdout s @ predict_lines c p b, stdin := ls\<rparr>"
  have pl: "predict_lines c p b =
     [Shape (shape (forward c p (map fst b))),
      Shape (idx_shape (get_max (map fst b))),
      Indices (get_max (map fst b)),
      Shape (idx_shape (get_max (forward c p (map fst b)))),
      Indices (get_max (forward c p (map fst b)))]"
    by (simp add: predict_lines_def)
  show ?case
  proof (cases "i < 10")
    case True
    then have k: "Suc (10 - i) = Suc (Suc (10 - Suc i))" by simp
    have "length (take (Suc (10 - Suc i)) bs) \<le> length (stdin ?s1)"
      using Cons.prems(3) st by (simp add: k)
    with Cons.prems(1,2) have
      ih: "predict_loop c bs (Suc i) (acc + batch_loss c p b) ?s1 =
        (Inr (), ?s1\<lparr>stdout := stdout ?s1 @
                      concat (map (predict_lines c p) (take (Suc (10 - Suc i)) bs)),
                    stdin := drop (length (take (Suc (10 - Suc i)) bs)) (stdin ?s1)\<rparr>)"
      by (intro Cons.IH) simp_all
    show ?thesis
      using True Cons.prems(1,2) st ih
      by (simp add: k call_net_def apply_criterion_def print_def pl Let_def
          batch_loss_def)
  next
    case False
    then have k: "10 - i = 0" by simp
    show ?thesis
      using False Cons.prems(1,2) st
      by (simp add: k call_net_def apply_criterion_def print_def pl Let_def)
  qed
qed

lemma restore_checkpoint_D:
  assumes "restore_checkpoint s = (Inr (), s0)"
  shows "stdin s0 = stdin s \<and> stdout s0 = stdout s \<and> batch_size s0 = batch_size s \<and>
         store s0 = store s \<and> writer s0 = writer s \<and> rng s0 = rng s"
  using assms by (auto simp: restore_checkpoint_def split: if_splits option.splits)

lemma predict_test_ok:
  assumes "0 < batch_size s" and "restore_checkpoint s = (Inr (), s0)" and "net s0 = Some p"
    and "min 10 (length (chunks (nat (batch_size s)) testset)) \<le> length (stdin s)"
  shows "predict_test c testset s =
     (Inr (), s0\<lparr>criterion := MSELoss,
                stdout := stdout s @
                  concat (map (predict_lines c p) (take 10 (chunks (nat (batch_size s)) testset))),
                stdin := drop (min 10 (length (chunks (nat (batch_size s)) testset))) (stdin s)\<rparr>)"
proof -
  note d = restore_checkpoint_D [OF assms(2)]
  let ?bs = "chunks (nat (batch_size s)) testset"
  let ?s1 = "s0\<lparr>criterion := MSELoss\<rparr>"
  have h: "net ?s1 = Some p" "criterion ?s1 = MSELoss"
    "length (take (Suc (10 - 1)) ?bs) \<le> length (stdin ?s1)"
    using assms(3,4) d by (simp_all add: min.commute)
  note l = predict_loop_ok [OF h, of c 0]
  show ?thesis
    using assms(1,2) d l
    by (simp add: predict_test_def DataLoader_def iter_loader_def Let_def min.commute
        del: predict_loop.simps)
qed

text \<open>
  C7. With a positive batch size, a restore that goes through and leaves a network in
  the namespace, and a line on standard input for every batch it will process,
  predict_test returns after processing the first ten batches of the unshuffled test
  partition, or all of them when there are fewer than ten. For each of these batches, and
  for no other, it prints the per-channel coordinates of the maximum of the inputs and of
  the network's outputs, and reads one line. The network and the optimizer are those the
  restore left; nothing is written to the checkpoint store or to the writer.
\<close>

theorem predict_test_first_ten:
  assumes "0 < batch_size s" and "restore_checkpoint s = (Inr (), s0)" and "net s0 = Some p"
    and "min 10 (length (chunks (nat (batch_size s)) testset)) \<le> length (stdin s)"
  shows "\<exists>s'. predict_test c testset s = (Inr (), s') \<and>
          stdout s' =
            stdout s @
              concat (map (\<lambda>batch.
                        [Shape (shape (forward c p (map fst batch))),
                         Shape (idx_shape (get_max (map fst batch))),
                         Indices (get_max (map fst batch)),
                         Shape (idx_shape (get_max (forward c p (map fst batch)))),
                         Indices (get_max (forward c p (map fst batch)))])
                      (take 10 (chunks (nat (batch_size s)) testset))) \<and>
          length (stdin s') + min 10 (length (chunks (nat (batch_size s)) testset))
            = length (stdin s) \<and>
          net s' = net s0 \<and> optimizer s' = optimizer s0 \<and>
          store s' = store s \<and> writer s' = writer s"
  unfolding predict_test_ok [OF assms]
  using assms(4) restore_checkpoint_D [OF assms(2)]
  by (simp add: predict_lines_def [abs_def])

lemma batches12: "chunks (nat (batch_size argsP)) testset12 = map (\<lambda>x. [x]) testset12"
  by (simp add: argsP_def args7_def args0_def testset12_def chunks.simps upt_rec)

theorem predict_test_first_ten_witness:
  "0 < batch_size argsP \<and> restore_checkpoint argsP = (Inr (), argsP) \<and>
   net argsP = Some 1 \<and>
   min 10 (length (chunks (nat (batch_size argsP)) testset12)) \<le> length (stdin argsP) \<and>
   fst (predict_test demo testset12 argsP) = Inr () \<and>
   length (stdin (snd (predict_test demo testset12 argsP))) + 10 = 12 \<and>
   net (snd (predict_test demo testset12 argsP)) = Some 1"
proof -
  have h: "0 < batch_size argsP" "restore_checkpoint argsP = (Inr (), argsP)"
    "net argsP = Some 1"
    "min 10 (length (chunks (nat (batch_size argsP)) testset12)) \<le> length (stdin argsP)"
    unfolding batches12
    by (simp_all add: argsP_def args7_def args0_def restore_checkpoint_def testset12_def)
  have n: "min 10 (length (chunks (nat (batch_size argsP)) testset12)) = 10"
    "length (stdin argsP) = 12"
    unfolding batches12 by (simp_all add: testset12_def argsP_def)
  from predict_test_first_ten [OF h, of demo] h n show ?thesis
    by auto
qed

text \<open>
  On a test partition of twelve batches, ten lines are read from standard input and ten
  batches are printed, not nine: the tenth batch is processed before the test on the
  batch number ends the loop.
\<close>

theorem predict_test_nine_batches_counterexample:
  "fst (predict_test demo testset12 argsP) = Inr () \<and>
   length (stdin argsP) - length (stdin (snd (predict_test demo testset12 argsP))) = 10 \<and>
   length (stdout (snd (predict_test demo testset12 argsP))) = 5 * 10 \<and>
   length (stdin argsP) - length (stdin (snd (predict_test demo testset12 argsP))) \<noteq> 9"
proof -
  have h: "0 < batch_size argsP" "restore_checkpoint argsP = (Inr (), argsP)"
    "net argsP = Some 1"
    "min 10 (length (chunks (nat (batch_size argsP)) testset12)) \<le> length (stdin argsP)"
    unfolding batches12
    by (simp_all add: argsP_def args7_def args0_def restore_checkpoint_def testset12_def)
  have n: "min 10 (length (chunks (nat (batch_size argsP)) testset12)) = 10"
    "min (length (chunks (nat (batch_size argsP)) testset12)) 10 = 10"
    "length (stdin argsP) = 12" "stdout argsP = []"
    "length (take 10 (chunks (nat (batch_size argsP)) testset12)) = 10"
    unfolding batches12 by (simp_all add: testset12_def argsP_def args7_def args0_def)
  have len: "length (concat (map (predict_lines demo 1) bs)) = 5 * length bs" for bs
    by (induction bs) (simp_all add: predict_lines_def)
  show ?thesis
    unfolding predict_test_ok [OF h, of demo]
    by (simp add: n len)
qed

lemma kept_refl [simp]: "kept s s"
  by (simp add: kept_def)

lemma kept_upd [simp]:
  "kept s0 (s\<lparr>optimizer := a1\<rparr>) = kept s0 s"
  "kept s0 (s\<lparr>net := a2\<rparr>) = kept s0 s"
  "kept s0 (s\<lparr>criterion := a3\<rparr>) = kept s0 s"
  "kept s0 (s\<lparr>best := a4\<rparr>) = kept s0 s"
  "kept s0 (s\<lparr>running_loss := a5\<rparr>) = kept s0 s"
  "kept s0 (s\<lparr>train_loss := a6\<rparr>) = kept s0 s"
  "kept s0 (s\<lparr>train_acc := a7\<rparr>) = kept s0 s"
  "kept s0 (s\<lparr>dataset_size := a8\<rparr>) = kept s0 s"
  "kept s0 (s\<lparr>dataloader_size := a9\<rparr>) = kept s0 s"
  "kept s0 (s\<lparr>step := b1\<rparr>) = kept s0 s"
  "kept s0 (s\<lparr>stdout := b2\<rparr>) = kept s0 s"
  "kept s0 (s\<lparr>stdin := b3\<rparr>) = kept s0 s"
  "kept s0 (s\<lparr>store := b4\<rparr>) = kept s0 s"
  "kept s0 (s\<lparr>rng := b5\<rparr>) = kept s0 s"
  by (simp_all add: kept_def loop_frame_def)

lemma kept_writer: "kept s0 s \<Longrightarrow> writer s = Some ws \<Longrightarrow> kept s0 (s\<lparr>writer := Some ws'\<rparr>)"
  by (auto simp: kept_def loop_frame_def)

lemma seq_kept:
  assumes "kept s0 (snd m)" and "\<And>a s1. kept s0 s1 \<Longrightarrow> kept s0 (snd (f a s1))"
  shows "kept s0 (snd (seq m f))"
  using assms by (cases m) (auto simp: seq_def split: sum.splits)

lemma print_kept [simp]: "kept s0 (print l s) = kept s0 s"
  by (simp add: print_def)

lemma writer_call_kept: "kept s0 s \<Longrightarrow> kept s0 (snd (writer_call w s))"
  by (cases "writer s") (simp_all add: writer_call_def kept_writer)

lemma add_tensorboard_kept:
  "kept s0 s \<Longrightarrow> kept s0 (snd (add_tensorboard i t o' g n s))"
  unfolding add_tensorboard_def
  by (intro seq_kept writer_call_kept)

lemma iter_loader_kept: "iter_loader c l s = (bs, s') \<Longrightarrow> kept s0 s' = kept s0 s"
  by (auto simp: iter_loader_def split: if_splits)

lemma process_checkpoint_kept: "kept s0 s \<Longrightarrow> kept s0 (snd (process_checkpoint l g s))"
  by (simp add: process_checkpoint_def split: option.split)

lemma restore_checkpoint_kept: "kept s0 s \<Longrightarrow> kept s0 (snd (restore_checkpoint s))"
  by (simp add: restore_checkpoint_def split: option.split)

lemma validate_loop_kept:
  "kept s0 s \<Longrightarrow> kept s0 (snd (validate_loop c bs i g acc s))"
proof (induction bs arbitrary: i acc s)
  case Nil
  then show ?case by simp
next
  case (Cons b bs)
  show ?case
    using Cons.prems
    by (auto simp: Let_def split: sum.split intro!: seq_kept add_tensorboard_kept Cons.IH)
qed

lemma validate_kept: "kept s0 s \<Longrightarrow> kept s0 (snd (validate c vs pr lg g s))"
  unfolding validate_def
  by (auto simp: Let_def split: sum.split prod.split option.split
      intro!: seq_kept validate_loop_kept writer_call_kept
      dest: iter_loader_kept [where ?s0.0 = s0])

lemma batch_status_kept:
  "kept s0 s \<Longrightarrow> kept s0 (snd (batch_status c i inp out tg e ld l vs s))"
  unfolding batch_status_def
  by (auto simp: Let_def
      intro!: seq_kept validate_kept writer_call_kept add_tensorboard_kept
        process_checkpoint_kept)

lemma train_batches_kept:
  "kept s0 s \<Longrightarrow> kept s0 (snd (train_batches c bs i e ld vs s))"
proof (induction bs arbitrary: i s)
  case Nil
  then show ?case by simp
next
  case (Cons b bs)
  show ?case
    using Cons.prems
    by (auto simp: Let_def split: sum.split optimizer.split option.split prod.split
        intro!: seq_kept batch_status_kept Cons.IH)
qed

lemma train_epochs_kept:
  "kept s0 s \<Longrightarrow> kept s0 (snd (train_epochs c es ld vs s))"
proof (induction es arbitrary: s)
  case Nil
  then show ?case by simp
next
  case (Cons e es)
  show ?case
    using Cons.prems
    by (auto simp: Let_def split: prod.split
        intro!: seq_kept train_batches_kept Cons.IH dest: iter_loader_kept [where ?s0.0 = s0])
qed

lemma train_setup_kept: "kept s0 s \<Longrightarrow> kept s0 (snd (train_setup c ts s))"
  unfolding train_setup_def
  by (auto simp: Let_def split: sum.split prod.split list.split option.split
      intro!: seq_kept writer_call_kept restore_checkpoint_kept dest: iter_loader_kept [where ?s0.0 = s0])

lemma train_kept: "kept s0 s \<Longrightarrow> kept s0 (snd (train c ts vs s))"
  unfolding train_def
  by (auto intro!: seq_kept train_setup_kept train_epochs_kept)

lemma predict_loop_kept:
  "kept s0 s \<Longrightarrow> kept s0 (snd (predict_loop c bs i acc s))"
proof (induction bs arbitrary: i acc s)
  case Nil
  then show ?case by simp
next
  case (Cons b bs)
  show ?case
    using Cons.prems
    by (auto simp: Let_def split: sum.split list.split intro!: Cons.IH)
qed

lemma predict_test_kept: "kept s0 s \<Longrightarrow> kept s0 (snd (predict_test c ts s))"
  unfolding predict_test_def
  by (auto simp: Let_def iter_loader_def split: sum.split
      intro!: seq_kept restore_checkpoint_kept predict_loop_kept)

lemma options_frame: "options (loop_frame s) = options s"
  by (simp add: options_def loop_frame_def)

lemma kept_options: "kept s s' \<Longrightarrow> options s' = options s"
  by (metis kept_def options_frame)

text \<open>
  C8, as far as it holds. Whatever they return, train, validate and predict_test leave
  every parsed option other than the optimizer, and the run name, as they found them.
\<close>

theorem loops_keep_options:
  "options (snd (train c trainset validset s)) = options s \<and>
   options (snd (validate c validset print_info log_info g s)) = options s \<and>
   options (snd (predict_test c testset s)) = options s"
  using kept_options [OF train_kept [OF kept_refl]]
    kept_options [OF validate_kept [OF kept_refl]]
    kept_options [OF predict_test_kept [OF kept_refl]]
  by blast

text \<open>
  The optimizer option does change: a run of train started with the option string adam
  ends with the Adam optimizer object in its place.
\<close>

theorem optimizer_option_counterexample:
  "optimizer args7 = OptName ''adam'' \<and>
   fst (train demo trainset7 [] args7) = Inr () \<and>
   optimizer (snd (train demo trainset7 [] args7)) = Adam (1 / 10000) ()"
  by (simp add: train_def train_setup_def DataLoader_def iter_loader_def shuffle_by_def
      chunks.simps enumerate_eq_zip upt_rec args7_def args0_def trainset7_def demo_def
      Let_def restore_checkpoint_def print_def loader_len_def batch_status_def writer_call_def
      apply_criterion_def)

text \<open>
  C9. When the accelerator is requested (the device option is cuda), main raises nothing
  at the device step: it selects the accelerator when the framework reports one and the
  CPU when it does not, prints the device selected, and goes on with the rest of the
  program on that device.
\<close>

theorem accelerator_fallback:
  assumes "device s = DevName ''cuda''"
  shows "device (set_up_gpu (cuda_is_available x) s) =
           TorchDevice (if cuda_is_available x then ''cuda:0'' else ''cpu'') \<and>
         main x c s =
           main_rest x c
             (s\<lparr>device := TorchDevice (if cuda_is_available x then ''cuda:0'' else ''cpu''),
                stdout := stdout s @
                  [DeviceLine (TorchDevice (if cuda_is_available x then ''cuda:0'' else ''cpu''))]\<rparr>)"
  using assms by (simp add: main_def set_up_gpu_def print_def Let_def)

theorem accelerator_fallback_witness:
  "device argsW = DevName ''cuda'' \<and> \<not> cuda_is_available demo_extern \<and>
   device (set_up_gpu (cuda_is_available demo_extern) argsW) = TorchDevice ''cpu'' \<and>
   main demo_extern demo argsW =
     main_rest demo_extern demo
       (argsW\<lparr>device := TorchDevice ''cpu'', stdout := [DeviceLine (TorchDevice ''cpu'')]\<rparr>) \<and>
   device (set_up_gpu (cuda_is_available (demo_extern\<lparr>cuda_is_available := True\<rparr>)) argsW) =
     TorchDevice ''cuda:0''"
proof -
  have h: "device argsW = DevName ''cuda''"
    by (simp add: argsW_def)
  have a: "\<not> cuda_is_available demo_extern" "stdout argsW = []"
    by (simp_all add: demo_extern_def argsW_def args7_def args0_def)
  from accelerator_fallback [OF h, of demo_extern demo]
    accelerator_fallback [OF h, of "demo_extern\<lparr>cuda_is_available := True\<rparr>" demo]
    h a show ?thesis
    by simp
qed

lemma store_true_not_None: "store_true flags argv \<noteq> PyNone"
  by (simp add: store_true_def)

lemma no_writer_upd [simp]:
  "no_writer (s\<lparr>run := a1\<rparr>) = no_writer s"
  "no_writer (s\<lparr>net := a2\<rparr>) = no_writer s"
  "no_writer (s\<lparr>device := a3\<rparr>) = no_writer s"
  "no_writer (s\<lparr>stdout := a4\<rparr>) = no_writer s"
  by (simp_all add: no_writer_def)

lemma no_writer_print [simp]: "no_writer (print l s) = no_writer s"
  by (simp add: print_def)

lemma seq_no_writer:
  assumes "no_writer (snd m)" and "\<And>a s1. no_writer s1 \<Longrightarrow> no_writer (snd (f a s1))"
  shows "no_writer (snd (seq m f))"
  using assms by (cases m) (auto simp: seq_def split: sum.splits)

lemma kept_no_writer: "kept s s' \<Longrightarrow> no_writer s \<Longrightarrow> no_writer s'"
  using kept_options [of s s'] by (simp add: no_writer_def kept_def options_def)

lemma leaves_alone_no_writer:
  assumes "leaves_alone x" and "no_writer s"
  shows "no_writer (snd (read_checkpoint x s))" "no_writer (snd (create_run_name x s))"
    "no_writer (snd (load_dataset x s))" "no_writer (snd (get_hparams x s))"
    "no_writer (snd (Resnet_Posture x s))"
  using assms by (simp_all add: leaves_alone_def no_writer_def)

lemma no_writer_predict: "no_writer s \<Longrightarrow> (predict s = PyNone) = False"
  by (simp add: no_writer_def)

lemma predict_print [simp]: "predict (print l s) = predict s"
  by (simp add: print_def)

lemma main_prepare_no_writer:
  assumes "leaves_alone x" and "no_writer s"
  shows "no_writer (snd (main_prepare x s))"
  unfolding main_prepare_def
  using assms(2)
  by (auto simp: Let_def no_writer_predict split: option.split
      intro!: seq_no_writer leaves_alone_no_writer [OF assms(1)])

lemma main_rest_no_writer:
  assumes "leaves_alone x" and "no_writer s"
  shows "no_writer (snd (main_rest x c s))"
  unfolding main_rest_def
  by (auto simp: Let_def no_writer_predict split: option.split
      intro!: seq_no_writer main_prepare_no_writer [OF assms]
        kept_no_writer [OF train_kept [OF kept_refl]]
        kept_no_writer [OF predict_test_kept [OF kept_refl]])

lemma main_no_writer:
  assumes "leaves_alone x" and "no_writer s"
  shows "no_writer (snd (main x c s))"
  using assms(2)
  by (auto simp: main_def Let_def set_up_gpu_def intro!: main_rest_no_writer [OF assms(1)])

lemma batch_status_without_writer:
  "writer s = None \<Longrightarrow>
     fst (batch_status c batch_idx inputs outputs targets epoch train_loader loss validset s)
       = Inl (AttributeError ''writer'')"
  by (simp add: batch_status_def Let_def writer_call_None)

lemma train_without_writer:
  assumes "writer s = None" and "0 < epochs s"
  shows "fst (train c trainset validset s) \<noteq> Inr ()"
proof
  assume "fst (train c trainset validset s) = Inr ()"
  then obtain s' where r: "train c trainset validset s = (Inr (), s')"
    by (cases "train c trainset validset s") auto
  from r obtain ld s1 s2 where
    su: "train_setup c trainset s = (Inr ld, s1)"
    and loop: "train_epochs c [0..<nat (epochs s1)] ld validset s1 = (Inr (), s2)"
    by (rule train_D)
  have "kept s (snd (train_setup c trainset s))"
    by (rule train_setup_kept) simp
  with su assms(1) have w1: "writer s1 = None"
    by (simp add: kept_def)
  from train_setup_D [OF su] assms(2) have "0 < nat (epochs s1)" by simp
  then obtain es where es: "[0..<nat (epochs s1)] = 0 # es"
    by (auto simp: upt_conv_Cons)
  let ?s0 = "s1\<lparr>train_loss := 0, train_acc := 0, running_loss := 0\<rparr>"
  obtain batches s3 where it: "iter_loader c ld ?s0 = (batches, s3)"
    by (cases "iter_loader c ld ?s0")
  have "length batches = loader_len ld"
    using iter_loader_length [of c ld ?s0] it by simp
  with train_setup_two_batches [OF su] obtain b bs where bs: "batches = b # bs"
    by (cases batches) auto
  have w3: "writer s3 = None"
    using iter_loader_writer [of c ld ?s0] it w1 by simp
  from loop es it bs obtain s4 where
    tb: "train_batches c (b # bs) 1 0 ld validset s3 = (Inr (), s4)"
    by (auto simp: Let_def elim!: seq_InrE split: if_splits)
  then have "\<exists>inputs outputs targets loss opt p' s5.
      batch_status c 1 inputs outputs targets 0 ld loss validset
        (s3\<lparr>optimizer := opt, net := Some p'\<rparr>) = (Inr (), s5)"
    by (auto simp: Let_def split: optimizer.splits option.splits sum.splits prod.splits
        elim!: seq_InrE) blast+
  then obtain inputs outputs targets loss opt p' s5 where
    "batch_status c 1 inputs outputs targets 0 ld loss validset
        (s3\<lparr>optimizer := opt, net := Some p'\<rparr>) = (Inr (), s5)"
    by blast
  from batch_status_Inr_D [OF this] w3 show False by simp
qed

text \<open>
  C10. The prediction flag comes from a \<open>store_true\<close> option, so it is a boolean and the
  test \<open>args.predict is None\<close> of main is false whatever the command line. Provided the
  helpers main calls do not themselves assign \<open>args.writer\<close> or \<open>args.predict\<close>, a
  namespace that enters main without a writer therefore reaches train or predict_test
  without one and leaves main without one: the SummaryWriter is never constructed and
  the closing branch is never taken. A call of \<open>batch_status\<close> without a writer raises
  AttributeError at the first logging call, so a training run of at least one epoch
  started without a writer never completes.
\<close>

theorem writer_never_assigned:
  assumes "predict s = store_true [''--predict'', ''--pred''] argv"
    and "writer s = None" and "leaves_alone x"
  shows "predict s \<noteq> PyNone \<and>
         writer (snd (main_prepare x
                        (print (DeviceLine (device (set_up_gpu (cuda_is_available x) s)))
                           (set_up_gpu (cuda_is_available x) s)))) = None \<and>
         writer (snd (main x c s)) = None \<and>
         predict (snd (main x c s)) \<noteq> PyNone \<and>
         (\<forall>batch_idx inputs outputs targets epoch train_loader loss validset s1.
            writer s1 = None \<longrightarrow>
            fst (batch_status c batch_idx inputs outputs targets epoch train_loader loss
                   validset s1) = Inl (AttributeError ''writer'')) \<and>
         (\<forall>trainset validset s1.
            writer s1 = None \<longrightarrow> 0 < epochs s1 \<longrightarrow> fst (train c trainset validset s1) \<noteq> Inr ())"
proof -
  have p: "predict s \<noteq> PyNone"
    using assms(1) by (simp add: store_true_not_None)
  with assms(2) have n: "no_writer s"
    by (simp add: no_writer_def)
  then have "no_writer (print (DeviceLine (device (set_up_gpu (cuda_is_available x) s)))
                           (set_up_gpu (cuda_is_available x) s))"
    by (simp add: set_up_gpu_def)
  from main_prepare_no_writer [OF assms(3) this] main_no_writer [OF assms(3) n, of c] p
  show ?thesis
    by (auto simp: no_writer_def batch_status_without_writer dest: train_without_writer)
qed

lemma mainW: "fst (main demo_extern demo argsW) = Inl (AttributeError ''writer'')"
  by (simp add: main_def main_rest_def main_prepare_def set_up_gpu_def store_true_def
      demo_extern_def argsW_def
      train_def train_setup_def DataLoader_def iter_loader_def shuffle_by_def
      chunks.simps enumerate_eq_zip upt_rec args7_def args0_def trainset7_def demo_def
      Let_def restore_checkpoint_def print_def loader_len_def batch_status_def writer_call_def
      apply_criterion_def)

theorem writer_never_assigned_witness:
  "predict argsW = store_true [''--predict'', ''--pred''] [''--device'', ''cuda''] \<and>
   writer argsW = None \<and> leaves_alone demo_extern \<and>
   predict argsW = PyBool False \<and>
   writer (snd (main demo_extern demo argsW)) = None \<and>
   fst (main demo_extern demo argsW) = Inl (AttributeError ''writer'')"
proof -
  have h: "predict argsW = store_true [''--predict'', ''--pred''] [''--device'', ''cuda'']"
    "writer argsW = None" "leaves_alone demo_extern"
    by (simp_all add: argsW_def leaves_alone_def demo_extern_def)
  have b: "predict argsW = PyBool False"
    by (simp add: argsW_def store_true_def)
  from writer_never_assigned [OF h, of demo] h b mainW show ?thesis
    by simp
qed

lemma best_cell_max:
  "best_cell b xs \<in> set (b # xs) \<and> (\<forall>y \<in> set (b # xs). snd y \<le> snd (best_cell b xs))"
proof (induction xs arbitrary: b)
  case Nil
  then show ?case by simp
next
  case (Cons x xs)
  let ?b = "if snd b < snd x then x else b"
  from Cons.IH [of ?b] have
    m: "best_cell ?b xs \<in> set (?b # xs)" and
    u: "\<forall>y \<in> set (?b # xs). snd y \<le> snd (best_cell ?b xs)"
    by blast+
  from u have "snd ?b \<le> snd (best_cell ?b xs)" by simp
  then have "snd b \<le> snd (best_cell ?b xs)" "snd x \<le> snd (best_cell ?b xs)"
    by (auto split: if_splits)
  with m u show ?case by (auto split: if_splits)
qed

lemma set_cells:
  "set (cells ch) = {((i, j), ch ! i ! j) | i j. i < length ch \<and> j < length (ch ! i)}"
proof -
  have "x \<in> set (cells ch) \<longleftrightarrow>
      (\<exists>i j. x = ((i, j), ch ! i ! j) \<and> i < length ch \<and> j < length (ch ! i))" for x
  proof
    assume "x \<in> set (cells ch)"
    then obtain i row j v where "(i, row) \<in> set (enumerate 0 ch)"
      "(j, v) \<in> set (enumerate 0 row)" "x = ((i, j), v)"
      by (auto simp: cells_def)
    then show "\<exists>i j. x = ((i, j), ch ! i ! j) \<and> i < length ch \<and> j < length (ch ! i)"
      by (auto simp: in_set_enumerate_eq)
  next
    assume "\<exists>i j. x = ((i, j), ch ! i ! j) \<and> i < length ch \<and> j < length (ch ! i)"
    then obtain i j where x: "x = ((i, j), ch ! i ! j)" "i < length ch" "j < length (ch ! i)"
      by blast
    then have "(i, ch ! i) \<in> set (enumerate 0 ch)"
      "(j, ch ! i ! j) \<in> set (enumerate 0 (ch ! i))"
      by (simp_all add: in_set_enumerate_eq)
    then have "((i, j), ch ! i ! j) \<in> set (cells ch)"
      unfolding cells_def by force
    with x show "x \<in> set (cells ch)" by simp
  qed
  then show ?thesis by blast
qed

text \<open>
  The coordinate \<open>get_max\<close> gives for a channel with at least one pixel lies inside the
  channel, and no pixel of the channel is larger than the one at that coordinate.
\<close>

lemma argmax2d_is_maximum:
  assumes "cells ch \<noteq> []" and "argmax2d ch = (i, j)"
  shows "i < length ch \<and> j < length (ch ! i) \<and>
         (\<forall>i' j'. i' < length ch \<longrightarrow> j' < length (ch ! i') \<longrightarrow> ch ! i' ! j' \<le> ch ! i ! j)"
proof -
  from assms(1) obtain x xs where c: "cells ch = x # xs"
    by (cases "cells ch") auto
  let ?r = "best_cell x xs"
  from best_cell_max [of x xs] c have
    m: "?r \<in> set (cells ch)" and u: "\<forall>y \<in> set (cells ch). snd y \<le> snd ?r"
    by simp_all
  from assms(2) c have f: "fst ?r = (i, j)"
    by (simp add: argmax2d_def)
  from m f have in_range: "i < length ch \<and> j < length (ch ! i)" and v: "snd ?r = ch ! i ! j"
    unfolding set_cells by (cases ?r; auto)+
  have "ch ! i' ! j' \<le> ch ! i ! j" if "i' < length ch" "j' < length (ch ! i')" for i' j'
  proof -
    from that have "((i', j'), ch ! i' ! j') \<in> set (cells ch)"
      unfolding set_cells by blast
    with u v show ?thesis by fastforce
  qed
  with in_range show ?thesis by blast
qed

end
